theory Spec2Isabelle
  imports Main "HOL-Library.Word" "HOL-Library.Sublist" "HOL-Library.Monad_Syntax"
begin

section \<open>The AST layer of the SQL front end (parser/node.h)\<close>

text \<open>
  The development has two views of the classes of \<^verbatim>\<open>node.h\<close>.

  \<^item> The node list is an intrusive singly linked list whose operations overwrite
    \<^verbatim>\<open>next_\<close> pointers of cells that other lists may share. It is modelled over an
    explicit store: one map per class from addresses to objects, \<^verbatim>\<open>NULL\<close> being
    \<open>None\<close>. Destructors run over the same store.
  \<^item> The debug printer only reads a finished tree. It is modelled over a datatype in
    which a pointer to an owned child is the child itself (or \<open>None\<close> for
    \<^verbatim>\<open>NULL\<close>).

  Isabelle reserves names that end in an underscore, so a member \<^verbatim>\<open>x_\<close> of the
  source is the field \<open>x_m\<close> here.
\<close>

subsection \<open>Node kinds\<close>

datatype SQLNodeType =
    kSelectStmt | kExpr | kResTarget | kTable | kFunc | kWindowDef | kFrameBound
  | kFrames | kColumn | kConst | kLimit | kAll | kList | kOrderBy
  | kNull | kInt | kBigInt | kFloat | kDouble | kString
  | kDesc | kAsc
  | kFrameRange | kFrameRows
  | kPreceding | kFollowing | kCurrent | kUnknow

subsection \<open>The store: linked cells and list headers\<close>

type_synonym addr = nat

text \<open>\<^verbatim>\<open>struct SQLLinkedNode\<close>: a pointer to the element and a pointer to the next cell.\<close>

record SQLLinkedNode =
  node_ptr_m :: "addr option"
  next_m :: "addr option"

text \<open>\<^verbatim>\<open>class SQLNodeList\<close>: \<^verbatim>\<open>size_t size_\<close> (64 bits), \<^verbatim>\<open>head_\<close> and \<^verbatim>\<open>tail_\<close>.\<close>

record SQLNodeList =
  size_m :: "64 word"
  head_m :: "addr option"
  tail_m :: "addr option"

text \<open>
  The objects a destructor looks at. Of a node only its dynamic class and the pointers
  its destructor deletes are kept; the classes with an empty destructor
  (\<^verbatim>\<open>LimitNode\<close>, \<^verbatim>\<open>SQLExprNode\<close>, \<^verbatim>\<open>ColumnRefNode\<close>, \<^verbatim>\<open>TableNode\<close>,
  \<^verbatim>\<open>ConstNode\<close>, \<^verbatim>\<open>OtherSqlNode\<close>, \<^verbatim>\<open>UnknowSqlNode\<close>) are one constructor.
  The fields stand in the order in which the destructor deletes them.
\<close>

datatype node_obj =
    SelectStmtObj "addr option" "addr option" "addr option" "addr option"
                  "addr option" "addr option" "addr option" "addr option"
  | ResTargetObj "addr option" "addr option"
  | WindowDefObj "addr option" "addr option" "addr option"
  | FrameBoundObj "addr option"
  | FrameObj "addr option" "addr option"
  | OrderByObj "addr option"
  | FuncObj "addr option" "addr option"
  | LeafObj

record heap =
  cells :: "addr \<rightharpoonup> SQLLinkedNode"
  nodelists :: "addr \<rightharpoonup> SQLNodeList"
  nodes :: "addr \<rightharpoonup> node_obj"

definition empty_heap :: heap where
  "empty_heap = \<lparr>cells = Map.empty, nodelists = Map.empty, nodes = Map.empty\<rparr>"

subsection \<open>Operations of \<^verbatim>\<open>SQLNodeList\<close>\<close>

text \<open>
  Every operation takes the store and the address \<open>this\<close> of the list and returns the
  new store; \<open>None\<close> is undefined behaviour (a call through a pointer to no object).
  \<^verbatim>\<open>new\<close> returns an address the allocator chooses: it is an argument, and must be
  free (the allocator hands out no address in use, so \<open>None\<close> there as well).
\<close>

text \<open>\<^verbatim>\<open>new SQLNodeList()\<close> at address \<open>a\<close>: \<^verbatim>\<open>size_(0), head_(NULL), tail_(NULL)\<close>.\<close>

definition new_SQLNodeList :: "heap \<Rightarrow> addr \<Rightarrow> heap option" where
  "new_SQLNodeList h a =
     (if nodelists h a \<noteq> None then None
      else Some (h\<lparr>nodelists := (nodelists h)(a \<mapsto> \<lparr>size_m = 0, head_m = None, tail_m = None\<rparr>)\<rparr>))"

text \<open>\<^verbatim>\<open>new SQLNode-subclass(...)\<close> at address \<open>a\<close>, as far as destructors see it.\<close>

definition new_node :: "heap \<Rightarrow> addr \<Rightarrow> node_obj \<Rightarrow> heap option" where
  "new_node h a obj =
     (if nodes h a \<noteq> None then None else Some (h\<lparr>nodes := (nodes h)(a \<mapsto> obj)\<rparr>))"

definition Size :: "heap \<Rightarrow> addr \<Rightarrow> 64 word option" where
  "Size h this = map_option size_m (nodelists h this)"

definition GetHead :: "heap \<Rightarrow> addr \<Rightarrow> addr option option" where
  "GetHead h this = map_option head_m (nodelists h this)"

text \<open>
  \<^verbatim>\<open>PushFront(node_ptr)\<close>; \<open>c\<close> is the address of the new cell.
\<close>

definition PushFront :: "heap \<Rightarrow> addr \<Rightarrow> addr option \<Rightarrow> addr \<Rightarrow> heap option" where
  "PushFront h this node_ptr c =
     (case nodelists h this of
        None \<Rightarrow> None
      | Some l \<Rightarrow>
          if cells h c \<noteq> None then None
          else
            let linked_node = \<lparr>node_ptr_m = node_ptr, next_m = None\<rparr>;
                linked_node = linked_node\<lparr>next_m := head_m l\<rparr>;
                l = l\<lparr>head_m := Some c\<rparr>;
                l = l\<lparr>size_m := size_m l + 1\<rparr>;
                l = (if tail_m l = None then l\<lparr>tail_m := head_m l\<rparr> else l)
            in Some (h\<lparr>cells := (cells h)(c \<mapsto> linked_node),
                       nodelists := (nodelists h)(this \<mapsto> l)\<rparr>))"

text \<open>
  \<^verbatim>\<open>AppendNodeList(node_list_ptr)\<close>. The three assignments of each branch read the
  argument's fields; they write only fields of \<open>this\<close> that the later reads do not
  depend on, also when the argument is \<open>this\<close> itself, so the argument is read once.
\<close>

definition AppendNodeList :: "heap \<Rightarrow> addr \<Rightarrow> addr option \<Rightarrow> heap option" where
  "AppendNodeList h this node_list_ptr =
     (case node_list_ptr of
        None \<Rightarrow> Some h
      | Some b \<Rightarrow>
          (case (nodelists h this, nodelists h b) of
             (Some l, Some other) \<Rightarrow>
               (case tail_m l of
                  None \<Rightarrow>
                    Some (h\<lparr>nodelists := (nodelists h)(this \<mapsto>
                            l\<lparr>head_m := head_m other, tail_m := head_m other, size_m := size_m other\<rparr>)\<rparr>)
                | Some t \<Rightarrow>
                    (case cells h t of
                       None \<Rightarrow> None
                     | Some c \<Rightarrow>
                         Some (h\<lparr>cells := (cells h)(t \<mapsto> c\<lparr>next_m := head_m other\<rparr>),
                                 nodelists := (nodelists h)(this \<mapsto>
                                   l\<lparr>tail_m := tail_m other, size_m := size_m l + size_m other\<rparr>)\<rparr>)))
           | _ \<Rightarrow> None))"

text \<open>
  Front-to-back traversal, the loop \<^verbatim>\<open>for (p = head_; NULL != p; p = p->next_)\<close> of
  \<^verbatim>\<open>Print\<close> and of every client of \<^verbatim>\<open>GetHead\<close>: the element pointers met, in order.
  The loop need not end (a cell may point back), so it runs on fuel: \<open>None\<close> is "not
  finished within the fuel", or a pointer to no cell.
\<close>

fun traverse :: "nat \<Rightarrow> (addr \<rightharpoonup> SQLLinkedNode) \<Rightarrow> addr option \<Rightarrow> addr option list option" where
  "traverse fuel cs None = Some []"
| "traverse 0 cs (Some p) = None"
| "traverse (Suc fuel) cs (Some p) =
     (case cs p of
        None \<Rightarrow> None
      | Some c \<Rightarrow> map_option ((#) (node_ptr_m c)) (traverse fuel cs (next_m c)))"

definition elements :: "nat \<Rightarrow> heap \<Rightarrow> addr \<Rightarrow> addr option list option" where
  "elements fuel h this =
     (case nodelists h this of None \<Rightarrow> None | Some l \<Rightarrow> traverse fuel (cells h) (head_m l))"

text \<open>
  \<open>chain cs p as\<close>: starting at \<open>p\<close> and following \<^verbatim>\<open>next_\<close>, the cells met are exactly
  \<open>as\<close>, and the last one points to \<^verbatim>\<open>NULL\<close>.
\<close>

fun chain :: "(addr \<rightharpoonup> SQLLinkedNode) \<Rightarrow> addr option \<Rightarrow> addr list \<Rightarrow> bool" where
  "chain cs p [] = (p = None)"
| "chain cs p (a # as) =
     (p = Some a \<and> (case cs a of None \<Rightarrow> False | Some c \<Rightarrow> chain cs (next_m c) as))"

text \<open>
  The representation invariant a list has as long as only \<^verbatim>\<open>PushFront\<close> has touched
  it: the cells from \<^verbatim>\<open>head_\<close> are \<open>as\<close>, \<^verbatim>\<open>size_\<close> is their number (as a
  \<^verbatim>\<open>size_t\<close>), and \<^verbatim>\<open>tail_\<close> is the last of them, or \<^verbatim>\<open>NULL\<close> when there is none.
\<close>

definition list_inv :: "heap \<Rightarrow> addr \<Rightarrow> addr list \<Rightarrow> bool" where
  "list_inv h a as =
     (case nodelists h a of
        None \<Rightarrow> False
      | Some l \<Rightarrow>
          chain (cells h) (head_m l) as \<and>
          size_m l = of_nat (length as) \<and>
          tail_m l = (if as = [] then None else Some (last as)))"

text \<open>The element pointers of the cells \<open>as\<close>.\<close>

definition node_ptrs :: "heap \<Rightarrow> addr list \<Rightarrow> addr option list" where
  "node_ptrs h as = map (\<lambda>a. case cells h a of None \<Rightarrow> None | Some c \<Rightarrow> node_ptr_m c) as"

text \<open>A sequence of calls on the lists of a store, run from left to right.\<close>

datatype list_op =
    New addr
  | Push addr "addr option" addr
  | Append addr "addr option"

fun run_op :: "heap \<Rightarrow> list_op \<Rightarrow> heap option" where
  "run_op h (New a) = new_SQLNodeList h a"
| "run_op h (Push this n c) = PushFront h this n c"
| "run_op h (Append this b) = AppendNodeList h this b"

fun run_ops :: "heap \<Rightarrow> list_op list \<Rightarrow> heap option" where
  "run_ops h [] = Some h"
| "run_ops h (x # xs) = (case run_op h x of None \<Rightarrow> None | Some h' \<Rightarrow> run_ops h' xs)"

subsection \<open>Destructors\<close>

text \<open>
  \<^verbatim>\<open>delete p\<close> does nothing for \<^verbatim>\<open>NULL\<close>; otherwise it runs the destructor of the
  object at \<open>p\<close> and then gives the object back to the allocator. Deleting an address
  that holds no object (a second \<^verbatim>\<open>delete\<close>, a dangling pointer) is undefined
  behaviour: \<open>None\<close>. Destructors call each other through the pointers of the store,
  which may form a cycle, so they run on fuel, and \<open>None\<close> is also "not finished
  within the fuel".
\<close>

definition free_node :: "heap \<Rightarrow> addr \<Rightarrow> heap option" where
  "free_node h a = (if nodes h a = None then None else Some (h\<lparr>nodes := (nodes h)(a := None)\<rparr>))"

definition free_cell :: "heap \<Rightarrow> addr \<Rightarrow> heap option" where
  "free_cell h a = (if cells h a = None then None else Some (h\<lparr>cells := (cells h)(a := None)\<rparr>))"

definition free_list :: "heap \<Rightarrow> addr \<Rightarrow> heap option" where
  "free_list h a = (if nodelists h a = None then None else Some (h\<lparr>nodelists := (nodelists h)(a := None)\<rparr>))"

text \<open>
  \<open>delete_SQLNode\<close> dispatches on the dynamic class (\<^verbatim>\<open>virtual ~SQLNode\<close>) and runs
  \<^verbatim>\<open>~SelectStmt\<close>, \<^verbatim>\<open>~ResTarget\<close>, \<^verbatim>\<open>~WindowDefNode\<close>, \<^verbatim>\<open>~FrameBound\<close>,
  \<^verbatim>\<open>~FrameNode\<close>, \<^verbatim>\<open>~OrderByNode\<close> or \<^verbatim>\<open>~FuncNode\<close>;
  \<open>delete_SQLLinkedNode\<close> runs \<^verbatim>\<open>~SQLLinkedNode\<close>; \<open>delete_SQLNodeList\<close> runs
  \<^verbatim>\<open>~SQLNodeList\<close>, whose loop
  \<^verbatim>\<open>while (NULL != p) { delete pre; pre = p; p = p->next_; } delete pre;\<close>
  is \<open>dtor_loop\<close>.
\<close>

fun delete_SQLNode :: "nat \<Rightarrow> heap \<Rightarrow> addr option \<Rightarrow> heap option"
  and delete_SQLLinkedNode :: "nat \<Rightarrow> heap \<Rightarrow> addr option \<Rightarrow> heap option"
  and delete_SQLNodeList :: "nat \<Rightarrow> heap \<Rightarrow> addr option \<Rightarrow> heap option"
  and dtor_loop :: "nat \<Rightarrow> heap \<Rightarrow> addr \<Rightarrow> addr option \<Rightarrow> heap option"
where
  "delete_SQLNode fuel h None = Some h"
| "delete_SQLNode 0 h (Some a) = None"
| "delete_SQLNode (Suc n) h (Some a) =
     (case nodes h a of
        None \<Rightarrow> None
      | Some obj \<Rightarrow>
          do {
            h \<leftarrow> (case obj of
                   SelectStmtObj limit tableref select wh grp hav ord win \<Rightarrow>
                     do {
                       h \<leftarrow> delete_SQLNode n h limit;
                       h \<leftarrow> delete_SQLNodeList n h tableref;
                       h \<leftarrow> delete_SQLNodeList n h select;
                       h \<leftarrow> delete_SQLNode n h wh;
                       h \<leftarrow> delete_SQLNode n h grp;
                       h \<leftarrow> delete_SQLNode n h hav;
                       h \<leftarrow> delete_SQLNode n h ord;
                       delete_SQLNodeList n h win
                     }
                 | ResTargetObj val indirection \<Rightarrow>
                     do {
                       h \<leftarrow> delete_SQLNode n h val;
                       delete_SQLNodeList n h indirection
                     }
                 | WindowDefObj partitions orders frame \<Rightarrow>
                     do {
                       h \<leftarrow> delete_SQLNodeList n h partitions;
                       h \<leftarrow> delete_SQLNodeList n h orders;
                       delete_SQLNode n h frame
                     }
                 | FrameBoundObj offset \<Rightarrow> delete_SQLNode n h offset
                 | FrameObj start fin \<Rightarrow>
                     do {
                       h \<leftarrow> delete_SQLNode n h start;
                       delete_SQLNode n h fin
                     }
                 | OrderByObj order_by \<Rightarrow> delete_SQLNode n h order_by
                 | FuncObj args over \<Rightarrow>
                     do {
                       h \<leftarrow> delete_SQLNodeList n h args;
                       delete_SQLNode n h over
                     }
                 | LeafObj \<Rightarrow> Some h);
            free_node h a
          })"
| "delete_SQLLinkedNode fuel h None = Some h"
| "delete_SQLLinkedNode 0 h (Some a) = None"
| "delete_SQLLinkedNode (Suc n) h (Some a) =
     (case cells h a of
        None \<Rightarrow> None
      | Some c \<Rightarrow>
          do {
            h \<leftarrow> delete_SQLNode n h (node_ptr_m c);
            free_cell h a
          })"
| "delete_SQLNodeList fuel h None = Some h"
| "delete_SQLNodeList 0 h (Some a) = None"
| "delete_SQLNodeList (Suc n) h (Some a) =
     (case nodelists h a of
        None \<Rightarrow> None
      | Some l \<Rightarrow>
          do {
            h \<leftarrow> Some (h\<lparr>nodelists := (nodelists h)(a \<mapsto> l\<lparr>tail_m := None\<rparr>)\<rparr>);
            h \<leftarrow> (case head_m l of
                   None \<Rightarrow> Some h
                 | Some pre \<Rightarrow>
                     (case cells h pre of
                        None \<Rightarrow> None
                      | Some c \<Rightarrow> dtor_loop n h pre (next_m c)));
            free_list h a
          })"
| "dtor_loop 0 h pre p = None"
| "dtor_loop (Suc n) h pre None = delete_SQLLinkedNode n h (Some pre)"
| "dtor_loop (Suc n) h pre (Some p) =
     do {
       h \<leftarrow> delete_SQLLinkedNode n h (Some pre);
       (case cells h p of
          None \<Rightarrow> None
        | Some c \<Rightarrow> dtor_loop n h p (next_m c))
     }"

subsection \<open>Nodes as trees\<close>

text \<open>The members of the base class \<^verbatim>\<open>SQLNode\<close>.\<close>

record SQLNode_base =
  type_m :: SQLNodeType
  line_num_m :: "32 word"
  location_m :: "32 word"

text \<open>
  The union \<^verbatim>\<open>val_\<close> of \<^verbatim>\<open>ConstNode\<close> with its active member. \<^verbatim>\<open>int\<close> and
  \<^verbatim>\<open>float\<close> are 32 bits, \<^verbatim>\<open>long\<close> and \<^verbatim>\<open>double\<close> 64 bits; a floating-point
  value is kept as its bit pattern, which is all that storing it and handing it back
  needs. \<^verbatim>\<open>vstr\<close> is a pointer the node does not own: an address of the memory of
  character buffers. \<open>Vuninit\<close> is the union the default constructor leaves untouched.
\<close>

datatype const_val =
    Vuninit
  | Vint "32 word"
  | Vlong "64 word"
  | Vstr "addr option"
  | Vfloat "32 word"
  | Vdouble "64 word"

text \<open>
  One constructor per class, the members in the order of their declaration. A list
  (\<open>SQLNodeSeq\<close>) is \<^verbatim>\<open>size_\<close> and the element pointers \<^verbatim>\<open>node_ptr_\<close> of the cells from
  \<^verbatim>\<open>head_\<close> on; an element pointer may be \<^verbatim>\<open>NULL\<close>.
\<close>

datatype SQLNode =
    SelectStmt SQLNode_base "32 word" "SQLNode option" "SQLNodeSeq option" "SQLNodeSeq option"
      "SQLNode option" "SQLNode option" "SQLNode option" "SQLNode option" "SQLNodeSeq option"
  | ResTarget SQLNode_base "SQLNodeSeq option" "SQLNode option" string
  | WindowDefNode SQLNode_base string "SQLNodeSeq option" "SQLNodeSeq option" "SQLNode option"
  | FrameBound SQLNode_base SQLNodeType "SQLNode option"
  | FrameNode SQLNode_base SQLNodeType "SQLNode option" "SQLNode option"
  | LimitNode SQLNode_base "32 word"
  | SQLExprNode SQLNode_base
  | ColumnRefNode SQLNode_base string string
  | OrderByNode SQLNode_base SQLNodeType "SQLNode option"
  | TableNode SQLNode_base string string
  | FuncNode SQLNode_base string "SQLNodeSeq option" "SQLNode option"
  | ConstNode SQLNode_base const_val
  | OtherSqlNode SQLNode_base
  | UnknowSqlNode SQLNode_base
and SQLNodeSeq =
    SQLNodeSeq "64 word" "SQLNode option list"

fun base_of :: "SQLNode \<Rightarrow> SQLNode_base" where
  "base_of (SelectStmt b distinct_opt limit select_list tableref_list wh grp hav ord window_list) = b"
| "base_of (ResTarget b indirection val name) = b"
| "base_of (WindowDefNode b window_name partition_list order_list frame) = b"
| "base_of (FrameBound b bound_type offset) = b"
| "base_of (FrameNode b frame_type start fin) = b"
| "base_of (LimitNode b limit_cnt) = b"
| "base_of (SQLExprNode b) = b"
| "base_of (ColumnRefNode b column_name relation_name) = b"
| "base_of (OrderByNode b sort_type order_by) = b"
| "base_of (TableNode b org_table_name alias_table_name) = b"
| "base_of (FuncNode b function_name args over) = b"
| "base_of (ConstNode b v) = b"
| "base_of (OtherSqlNode b) = b"
| "base_of (UnknowSqlNode b) = b"

definition GetType :: "SQLNode \<Rightarrow> SQLNodeType" where
  "GetType n = type_m (base_of n)"

text \<open>The base-class constructor \<^verbatim>\<open>SQLNode(type, line_num, location)\<close>.\<close>

definition SQLNode_init :: "SQLNodeType \<Rightarrow> 32 word \<Rightarrow> 32 word \<Rightarrow> SQLNode_base" where
  "SQLNode_init t line_num location = \<lparr>type_m = t, line_num_m = line_num, location_m = location\<rparr>"

text \<open>
  The constructors that initialise every member. \<^verbatim>\<open>ResTarget()\<close>,
  \<^verbatim>\<open>ResTarget(name, val)\<close>, \<^verbatim>\<open>ResTarget(line_num, location)\<close> and
  \<^verbatim>\<open>FrameBound(bound_type)\<close> leave a pointer member without a value; a node they
  build is a \<open>ResTarget\<close> or \<open>FrameBound\<close> term with whatever stands in that member.
\<close>

definition new_SelectStmt :: SQLNode where
  "new_SelectStmt = SelectStmt (SQLNode_init kSelectStmt 0 0) 0 None None None None None None None None"

definition new_WindowDefNode :: SQLNode where
  "new_WindowDefNode = WindowDefNode (SQLNode_init kWindowDef 0 0) [] None None None"

definition new_FrameBound :: "SQLNodeType \<Rightarrow> SQLNode option \<Rightarrow> SQLNode" where
  "new_FrameBound bound_type offset = FrameBound (SQLNode_init kFrameBound 0 0) bound_type offset"

definition new_FrameNode :: "SQLNodeType \<Rightarrow> SQLNode option \<Rightarrow> SQLNode option \<Rightarrow> SQLNode" where
  "new_FrameNode frame_type start fin = FrameNode (SQLNode_init kFrames 0 0) frame_type start fin"

definition new_LimitNode :: "32 word \<Rightarrow> SQLNode" where
  "new_LimitNode cnt = LimitNode (SQLNode_init kLimit 0 0) cnt"

definition new_ColumnRefNode :: "string \<Rightarrow> string \<Rightarrow> SQLNode" where
  "new_ColumnRefNode column_name relation_name =
     ColumnRefNode (SQLNode_init kColumn 0 0) column_name relation_name"

definition new_OrderByNode :: "SQLNode option \<Rightarrow> SQLNode" where
  "new_OrderByNode order = OrderByNode (SQLNode_init kOrderBy 0 0) kDesc order"

definition new_TableNode :: "string \<Rightarrow> string \<Rightarrow> SQLNode" where
  "new_TableNode name alias = TableNode (SQLNode_init kTable 0 0) name alias"

definition new_FuncNode :: "string \<Rightarrow> SQLNodeSeq option \<Rightarrow> SQLNode option \<Rightarrow> SQLNode" where
  "new_FuncNode function_name args over = FuncNode (SQLNode_init kFunc 0 0) function_name args over"

definition empty_SQLNodeSeq :: SQLNodeSeq where
  "empty_SQLNodeSeq = SQLNodeSeq 0 []"

text \<open>
  The constructors of \<^verbatim>\<open>ConstNode\<close>, one per overload. The last takes a
  \<^verbatim>\<open>const std::string &\<close> and stores \<^verbatim>\<open>val.c_str()\<close>: its argument here is that
  pointer, the address of the string's own buffer.
\<close>

definition ConstNode_null :: SQLNode where
  "ConstNode_null = ConstNode (SQLNode_init kNull 0 0) Vuninit"

definition ConstNode_int :: "32 word \<Rightarrow> SQLNode" where
  "ConstNode_int v = ConstNode (SQLNode_init kInt 0 0) (Vint v)"

definition ConstNode_long :: "64 word \<Rightarrow> SQLNode" where
  "ConstNode_long v = ConstNode (SQLNode_init kBigInt 0 0) (Vlong v)"

definition ConstNode_float :: "32 word \<Rightarrow> SQLNode" where
  "ConstNode_float v = ConstNode (SQLNode_init kFloat 0 0) (Vfloat v)"

definition ConstNode_double :: "64 word \<Rightarrow> SQLNode" where
  "ConstNode_double v = ConstNode (SQLNode_init kDouble 0 0) (Vdouble v)"

definition ConstNode_cstr :: "addr option \<Rightarrow> SQLNode" where
  "ConstNode_cstr p = ConstNode (SQLNode_init kString 0 0) (Vstr p)"

definition ConstNode_string :: "addr \<Rightarrow> SQLNode" where
  "ConstNode_string c_str = ConstNode (SQLNode_init kString 0 0) (Vstr (Some c_str))"

text \<open>
  The accessors of \<^verbatim>\<open>ConstNode\<close>. Reading a member of the union that is not the
  active one has no defined value: \<open>None\<close>.
\<close>

fun GetInt :: "SQLNode \<Rightarrow> 32 word option" where
  "GetInt (ConstNode b (Vint v)) = Some v"
| "GetInt n = None"

fun GetLong :: "SQLNode \<Rightarrow> 64 word option" where
  "GetLong (ConstNode b (Vlong v)) = Some v"
| "GetLong n = None"

fun GetStr :: "SQLNode \<Rightarrow> addr option option" where
  "GetStr (ConstNode b (Vstr p)) = Some p"
| "GetStr n = None"

fun GetFloat :: "SQLNode \<Rightarrow> 32 word option" where
  "GetFloat (ConstNode b (Vfloat v)) = Some v"
| "GetFloat n = None"

fun GetDouble :: "SQLNode \<Rightarrow> 64 word option" where
  "GetDouble (ConstNode b (Vdouble v)) = Some v"
| "GetDouble n = None"

text \<open>
  The memory of character buffers: the text that starts at an address, while the
  buffer lives. A \<^verbatim>\<open>std::string\<close> is known by the address of its buffer; its
  destructor frees it. Reading the text at a pointer fails for \<^verbatim>\<open>NULL\<close> and for a
  freed buffer.
\<close>

type_synonym char_mem = "addr \<rightharpoonup> string"

definition string_dtor :: "char_mem \<Rightarrow> addr \<Rightarrow> char_mem" where
  "string_dtor m a = m(a := None)"

definition text_at :: "char_mem \<Rightarrow> addr option \<Rightarrow> string option" where
  "text_at m p = (case p of None \<Rightarrow> None | Some a \<Rightarrow> m a)"

definition GetStr_text :: "char_mem \<Rightarrow> SQLNode \<Rightarrow> string option" where
  "GetStr_text m n = (case GetStr n of None \<Rightarrow> None | Some p \<Rightarrow> text_at m p)"

text \<open>
  \<^verbatim>\<open>FillSelectAttributions\<close>, the only function that writes members of a
  \<^verbatim>\<open>SelectStmt\<close> after its constructor. It takes a \<^verbatim>\<open>SelectStmt *\<close>, so other nodes
  are no arguments of it.
\<close>

fun FillSelectAttributions ::
  "SQLNode \<Rightarrow> SQLNodeSeq option \<Rightarrow> SQLNodeSeq option \<Rightarrow> SQLNodeSeq option \<Rightarrow> SQLNode option
     \<Rightarrow> SQLNode option" where
  "FillSelectAttributions
     (SelectStmt b distinct_opt limit select_list tableref_list wh grp hav ord window_list)
     select_list_ptr tableref_list_ptr window_list_ptr limit_ptr =
       Some (SelectStmt b distinct_opt limit_ptr select_list_ptr tableref_list_ptr
               wh grp hav ord window_list_ptr)"
| "FillSelectAttributions n select_list_ptr tableref_list_ptr window_list_ptr limit_ptr = None"

text \<open>\<^verbatim>\<open>FillWindowSpection\<close>.\<close>

fun FillWindowSpection ::
  "SQLNode \<Rightarrow> SQLNodeSeq option \<Rightarrow> SQLNodeSeq option \<Rightarrow> SQLNode option \<Rightarrow> SQLNode option" where
  "FillWindowSpection (WindowDefNode b window_name partition_list order_list frame_ptr)
     partitions orders frame =
       Some (WindowDefNode b window_name partitions orders frame)"
| "FillWindowSpection n partitions orders frame = None"

subsection \<open>The debug printer\<close>

definition SPACE_ST :: string where
  "SPACE_ST = ''+''"

definition SPACE_ED :: string where
  "SPACE_ED = []"

text \<open>The characters \<^verbatim>\<open>\n\<close> and \<^verbatim>\<open>\t\<close>, as one-character strings.\<close>

definition NL :: string where
  "NL = [CHR 0x0A]"

definition TAB :: string where
  "TAB = [CHR 0x09]"

text \<open>
  What \<^verbatim>\<open>operator<<\<close> writes for an \<^verbatim>\<open>int\<close> or a \<^verbatim>\<open>long\<close>: the decimal
  digits, after a minus sign for a negative number.
\<close>

function show_nat :: "nat \<Rightarrow> string" where
  "show_nat n =
     (if n < 10 then [''0123456789'' ! n]
      else show_nat (n div 10) @ [''0123456789'' ! (n mod 10)])"
  by pat_completeness auto
termination
  by (relation "measure id") auto

definition show_int :: "int \<Rightarrow> string" where
  "show_int i = (if i < 0 then ''-'' @ show_nat (nat (- i)) else show_nat (nat i))"

text \<open>
  What the printer takes from outside \<^verbatim>\<open>node.h\<close>:
  \<^item> \<open>NameOf\<close> is \<^verbatim>\<open>NameOfSQLNodeType\<close>, declared at line 65 and defined in a file
    that is not part of the sources;
  \<^item> \<open>fmt_float\<close> and \<open>fmt_double\<close> are the digits the stream library writes for a
    \<^verbatim>\<open>float\<close> and a \<^verbatim>\<open>double\<close>;
  \<^item> \<open>chars\<close> is the memory of character buffers that \<^verbatim>\<open>output << val_.vstr\<close>
    reads.
\<close>

record print_env =
  NameOf :: "SQLNodeType \<Rightarrow> string"
  fmt_float :: "32 word \<Rightarrow> string"
  fmt_double :: "64 word \<Rightarrow> string"
  chars :: char_mem

text \<open>
  A print is the text it appends to the stream, or \<open>None\<close> when it dereferences a
  pointer to nothing (\<^verbatim>\<open>NULL\<close>, a freed buffer) or reads a member of the union that
  is not the active one. \<open>cat\<close> is a sequence of writes: the texts one after the other,
  unless one of them fails.
\<close>

primrec cat :: "string option list \<Rightarrow> string option" where
  "cat [] = Some []"
| "cat (x # xs) = (case x of None \<Rightarrow> None | Some s \<Rightarrow> map_option ((@) s) (cat xs))"

text \<open>\<^verbatim>\<open>SQLNode::Print(output, tab)\<close>, which every override calls first.\<close>

definition SQLNode_Print :: "print_env \<Rightarrow> SQLNode_base \<Rightarrow> string \<Rightarrow> string" where
  "SQLNode_Print env b tab = tab @ SPACE_ED @ NameOf env (type_m b)"

text \<open>The \<^verbatim>\<open>switch (type_)\<close> of \<^verbatim>\<open>ConstNode::Print\<close>.\<close>

fun ConstNode_value :: "print_env \<Rightarrow> SQLNodeType \<Rightarrow> const_val \<Rightarrow> string option" where
  "ConstNode_value env kInt v =
     (case v of Vint i \<Rightarrow> Some (''value: '' @ show_int (sint i)) | _ \<Rightarrow> None)"
| "ConstNode_value env kBigInt v =
     (case v of Vlong i \<Rightarrow> Some (''value: '' @ show_int (sint i)) | _ \<Rightarrow> None)"
| "ConstNode_value env kString v =
     (case v of Vstr p \<Rightarrow> map_option ((@) ''value: '') (text_at (chars env) p) | _ \<Rightarrow> None)"
| "ConstNode_value env kFloat v =
     (case v of Vfloat f \<Rightarrow> Some (''value: '' @ fmt_float env f) | _ \<Rightarrow> None)"
| "ConstNode_value env kDouble v =
     (case v of Vdouble d \<Rightarrow> Some (''value: '' @ fmt_double env d) | _ \<Rightarrow> None)"
| "ConstNode_value env t v = Some ''value: unknow''"

text \<open>
  \<open>Print env n orgTab\<close> is the virtual \<^verbatim>\<open>Print(output, orgTab)\<close> of the class of
  \<open>n\<close>; \<open>SQLNodeList_Print\<close> is \<^verbatim>\<open>SQLNodeList::Print(output, tab)\<close>, and \<open>Print_cells\<close>
  its walk along the cells (the source prints the first cell before its loop and the
  others inside, each followed by a newline).

  Modelled from the spec: \<^verbatim>\<open>operator<<(std::ostream &, const SQLNode &)\<close> is declared
  a friend at line 96 and defined outside the sources. The spec (4.6) knows one debug
  printer for "any node or list", so \<^verbatim>\<open>output << *(having_clause_ptr_)\<close> is the
  node's \<^verbatim>\<open>Print(output)\<close>, which is \<^verbatim>\<open>Print(output, SPACE_ST)\<close>.
\<close>

fun Print :: "print_env \<Rightarrow> SQLNode \<Rightarrow> string \<Rightarrow> string option"
  and SQLNodeList_Print :: "print_env \<Rightarrow> SQLNodeSeq \<Rightarrow> string \<Rightarrow> string option"
  and Print_cells :: "print_env \<Rightarrow> SQLNode option list \<Rightarrow> string \<Rightarrow> string option"
where
  "Print env (SelectStmt b distinct_opt limit select_list tableref_list wh grp hav ord window_list)
     orgTab =
     (let tab = orgTab @ TAB; space = tab @ TAB in
      cat [Some (SQLNode_Print env b orgTab),
           Some NL,
           (case select_list of
              None \<Rightarrow> Some (tab @ ''select_list_ptr_: NULL'' @ NL)
            | Some l \<Rightarrow> cat [Some (tab @ ''select_list: '' @ NL), SQLNodeList_Print env l space, Some NL]),
           (case tableref_list of
              None \<Rightarrow> Some (tab @ ''tableref_list_ptr_: NULL'' @ NL)
            | Some l \<Rightarrow>
                cat [Some (tab @ ''tableref_list_ptr_: '' @ NL), SQLNodeList_Print env l space, Some NL]),
           (case wh of
              None \<Rightarrow> Some (tab @ ''where_clause_: NULL'' @ NL)
            | Some n \<Rightarrow> cat [Some (tab @ ''where_clause_: '' @ NL), Print env n tab, Some NL]),
           (case grp of
              None \<Rightarrow> Some (tab @ ''group_clause_: NULL'' @ NL)
            | Some n \<Rightarrow> cat [Some (tab @ ''group_clause_: '' @ NL), Print env n tab, Some NL]),
           (case hav of
              None \<Rightarrow> Some (tab @ ''having_clause_: NULL'' @ NL)
            | Some n \<Rightarrow> cat [Some (tab @ ''having_clause_: ''), Print env n SPACE_ST, Some NL]),
           (case ord of
              None \<Rightarrow> Some (tab @ ''order_clause_: NULL'' @ NL)
            | Some n \<Rightarrow> cat [Some (tab @ ''order_clause_: ''), Print env n SPACE_ST, Some NL]),
           (case window_list of
              None \<Rightarrow> Some (tab @ ''window_list_ptr_: NULL'' @ NL)
            | Some l \<Rightarrow>
                cat [Some (tab @ ''window_list_ptr_: '' @ NL), SQLNodeList_Print env l space, Some NL]),
           (case limit of
              None \<Rightarrow> Some (tab @ ''limit_clause_: NULL'' @ NL)
            | Some n \<Rightarrow> cat [Some (tab @ ''limit_clause_: '' @ NL), Print env n tab, Some NL])])"
| "Print env (ResTarget b indirection val name) orgTab =
     (let tab = orgTab @ TAB @ SPACE_ED; space = orgTab @ TAB @ TAB in
      cat [Some (SQLNode_Print env b orgTab),
           Some NL,
           Some (tab @ ''val: '' @ NL),
           (case val of None \<Rightarrow> None | Some n \<Rightarrow> Print env n space),
           Some NL,
           Some (tab @ ''name: '' @ NL),
           Some (space @ name)])"
| "Print env (WindowDefNode b window_name partition_list order_list frame) orgTab =
     (let tab = orgTab @ TAB; space = tab @ TAB in
      cat [Some (SQLNode_Print env b orgTab),
           Some NL,
           Some (tab @ ''window_name: '' @ window_name @ NL),
           (case partition_list of
              None \<Rightarrow> Some (tab @ ''partition_list_ptr_: NULL'' @ NL)
            | Some l \<Rightarrow>
                cat [Some (tab @ ''partition_list_ptr_: '' @ NL), SQLNodeList_Print env l space, Some NL]),
           (case order_list of
              None \<Rightarrow> Some (tab @ ''order_list_ptr_: NULL'' @ NL)
            | Some l \<Rightarrow>
                cat [Some (tab @ ''order_list_ptr_: '' @ NL), SQLNodeList_Print env l space, Some NL]),
           (case frame of
              None \<Rightarrow> Some (tab @ ''frame_ptr: NULL'')
            | Some n \<Rightarrow> cat [Some (tab @ ''frame_ptr: '' @ NL), Print env n space])])"
| "Print env (FrameBound b bound_type offset) orgTab =
     (let tab = orgTab @ TAB; space = tab @ TAB in
      cat [Some (SQLNode_Print env b orgTab),
           Some NL,
           Some (tab @ ''bound: '' @ NameOf env bound_type @ NL),
           (case offset of
              None \<Rightarrow> Some (space @ ''UNBOUNDED'')
            | Some n \<Rightarrow> Print env n space)])"
| "Print env (FrameNode b frame_type start fin) orgTab =
     (let tab = orgTab @ TAB; space = tab @ TAB in
      cat [Some (SQLNode_Print env b orgTab),
           Some NL,
           Some (tab @ ''frames_type_ : '' @ NameOf env frame_type @ NL),
           (case start of
              None \<Rightarrow> Some (tab @ ''start: UNBOUNDED: '' @ NL)
            | Some n \<Rightarrow> cat [Some (tab @ ''start: '' @ NL), Print env n space, Some NL]),
           (case fin of
              None \<Rightarrow> Some (tab @ ''end: UNBOUNDED'')
            | Some n \<Rightarrow> cat [Some (tab @ ''end: '' @ NL), Print env n space])])"
| "Print env (LimitNode b limit_cnt) orgTab = Some (SQLNode_Print env b orgTab)"
| "Print env (SQLExprNode b) orgTab = Some (SQLNode_Print env b orgTab)"
| "Print env (ColumnRefNode b column_name relation_name) orgTab =
     (let tab = orgTab @ TAB @ SPACE_ED in
      cat [Some (SQLNode_Print env b orgTab),
           Some NL,
           Some (tab @ ''column_ref: '' @ ''{relation_name: '' @ relation_name @ '','' @
                 '' column_name: '' @ column_name @ ''}'')])"
| "Print env (OrderByNode b sort_type order_by) orgTab =
     (let tab = orgTab @ TAB @ SPACE_ED; space = orgTab @ TAB @ TAB @ SPACE_ED in
      cat [Some (SQLNode_Print env b orgTab),
           Some NL,
           Some (tab @ ''sort_type_: '' @ NameOf env sort_type @ NL),
           (case order_by of
              None \<Rightarrow> Some (tab @ ''order_by_: NULL'' @ NL)
            | Some n \<Rightarrow> cat [Some (tab @ ''order_by_: '' @ NL), Print env n space, Some NL])])"
| "Print env (TableNode b org_table_name alias_table_name) orgTab =
     (let tab = orgTab @ TAB @ SPACE_ED in
      cat [Some (SQLNode_Print env b orgTab),
           Some NL,
           Some (tab @ ''table: '' @ org_table_name @ '', alias: '' @ alias_table_name)])"
| "Print env (FuncNode b function_name args over) orgTab =
     (let tab = orgTab @ TAB @ SPACE_ED; space = orgTab @ TAB @ TAB in
      cat [Some (SQLNode_Print env b orgTab),
           Some NL,
           Some (tab @ ''function_name: '' @ function_name),
           Some NL,
           Some (tab @ ''args: '' @ NL),
           (case args of
              None \<Rightarrow> Some (space @ ''[]'')
            | Some (SQLNodeSeq sz ns) \<Rightarrow>
                if 0 = sz then Some (space @ ''[]'') else SQLNodeList_Print env (SQLNodeSeq sz ns) space),
           Some NL,
           (case over of
              None \<Rightarrow> Some (tab @ ''over: NULL'' @ NL)
            | Some n \<Rightarrow> cat [Some (tab @ ''over: '' @ NL), Print env n space])])"
| "Print env (ConstNode b v) orgTab =
     (let tab = orgTab @ TAB in
      cat [Some (SQLNode_Print env b orgTab),
           Some NL,
           Some tab,
           ConstNode_value env (type_m b) v])"
| "Print env (OtherSqlNode b) orgTab = Some (SQLNode_Print env b orgTab)"
| "Print env (UnknowSqlNode b) orgTab = Some (SQLNode_Print env b orgTab)"
| "SQLNodeList_Print env (SQLNodeSeq sz ns) tab =
     (if 0 = sz \<or> ns = [] then Some (tab @ ''[]'')
      else cat [Some (tab @ ''['' @ NL), Print_cells env ns (tab @ TAB), Some (tab @ '']'')])"
| "Print_cells env [] space = Some []"
| "Print_cells env (p # ps) space =
     cat [(case p of None \<Rightarrow> None | Some n \<Rightarrow> Print env n space), Some NL, Print_cells env ps space]"

text \<open>\<^verbatim>\<open>SQLNode::Print(output)\<close>, the print with no indentation argument.\<close>

definition Print_top :: "print_env \<Rightarrow> SQLNode \<Rightarrow> string option" where
  "Print_top env n = Print env n SPACE_ST"

text \<open>\<^verbatim>\<open>SQLNodeList::Print(output)\<close>.\<close>

definition SQLNodeList_Print_top :: "print_env \<Rightarrow> SQLNodeSeq \<Rightarrow> string option" where
  "SQLNodeList_Print_top env l = SQLNodeList_Print env l []"

text \<open>
  Modelled from the spec: \<^verbatim>\<open>NameOfSQLNodeType\<close> is declared in \<^verbatim>\<open>node.h\<close> (line 65)
  and its body is not part of the sources. The spec writes the frame types as
  \<^verbatim>\<open>RANGE\<close> and \<^verbatim>\<open>ROWS\<close> and the bound kinds as \<^verbatim>\<open>PRECEDING\<close>, \<^verbatim>\<open>FOLLOWING\<close>
  and \<^verbatim>\<open>CURRENT\<close>; a kind it does not spell out has the name of its enumerator.
  Only the examples on concrete nodes use this table; every general theorem holds for
  any table.
\<close>

fun NameOfSQLNodeType :: "SQLNodeType \<Rightarrow> string" where
  "NameOfSQLNodeType kSelectStmt = ''kSelectStmt''"
| "NameOfSQLNodeType kExpr = ''kExpr''"
| "NameOfSQLNodeType kResTarget = ''kResTarget''"
| "NameOfSQLNodeType kTable = ''kTable''"
| "NameOfSQLNodeType kFunc = ''kFunc''"
| "NameOfSQLNodeType kWindowDef = ''kWindowDef''"
| "NameOfSQLNodeType kFrameBound = ''kFrameBound''"
| "NameOfSQLNodeType kFrames = ''kFrames''"
| "NameOfSQLNodeType kColumn = ''kColumn''"
| "NameOfSQLNodeType kConst = ''kConst''"
| "NameOfSQLNodeType kLimit = ''kLimit''"
| "NameOfSQLNodeType kAll = ''kAll''"
| "NameOfSQLNodeType kList = ''kList''"
| "NameOfSQLNodeType kOrderBy = ''kOrderBy''"
| "NameOfSQLNodeType kNull = ''kNull''"
| "NameOfSQLNodeType kInt = ''kInt''"
| "NameOfSQLNodeType kBigInt = ''kBigInt''"
| "NameOfSQLNodeType kFloat = ''kFloat''"
| "NameOfSQLNodeType kDouble = ''kDouble''"
| "NameOfSQLNodeType kString = ''kString''"
| "NameOfSQLNodeType kDesc = ''kDesc''"
| "NameOfSQLNodeType kAsc = ''kAsc''"
| "NameOfSQLNodeType kFrameRange = ''RANGE''"
| "NameOfSQLNodeType kFrameRows = ''ROWS''"
| "NameOfSQLNodeType kPreceding = ''PRECEDING''"
| "NameOfSQLNodeType kFollowing = ''FOLLOWING''"
| "NameOfSQLNodeType kCurrent = ''CURRENT''"
| "NameOfSQLNodeType kUnknow = ''kUnknow''"

text \<open>
  The environment of the examples: the table above and no character buffer. No example
  prints a floating-point literal; the two formats stand in with the bit pattern in
  decimal.
\<close>

definition example_env :: print_env where
  "example_env =
     \<lparr>NameOf = NameOfSQLNodeType,
      fmt_float = show_int \<circ> uint,
      fmt_double = show_int \<circ> uint,
      chars = Map.empty\<rparr>"

text \<open>
  The first token of a text: its first maximal run of characters other than a blank,
  a tab or a newline.
\<close>

definition is_space :: "char \<Rightarrow> bool" where
  "is_space c = (c = CHR '' '' \<or> c = CHR 0x09 \<or> c = CHR 0x0A)"

definition first_token :: "string \<Rightarrow> string" where
  "first_token s = takeWhile (\<lambda>c. \<not> is_space c) (dropWhile is_space s)"

text \<open>
  The nodes that the printer can print: no \<^verbatim>\<open>Print\<close> reached from the node calls
  through a NULL pointer (the value of a result target, a cell of a non-empty list) or reads
  a union member of a literal that its kind does not select. The predicate follows the
  calls of \<^verbatim>\<open>Print\<close> below and is shown further down to hold exactly where \<^verbatim>\<open>Print\<close> returns.
\<close>

fun printable :: "print_env \<Rightarrow> SQLNode \<Rightarrow> bool"
  and printable_seq :: "print_env \<Rightarrow> SQLNodeSeq \<Rightarrow> bool"
  and printable_cells :: "print_env \<Rightarrow> SQLNode option list \<Rightarrow> bool"
where
  "printable env (SelectStmt b distinct_opt limit select_list tableref_list wh grp hav ord window_list) =
     ((case select_list of None \<Rightarrow> True | Some l \<Rightarrow> printable_seq env l) \<and>
      (case tableref_list of None \<Rightarrow> True | Some l \<Rightarrow> printable_seq env l) \<and>
      (case wh of None \<Rightarrow> True | Some n \<Rightarrow> printable env n) \<and>
      (case grp of None \<Rightarrow> True | Some n \<Rightarrow> printable env n) \<and>
      (case hav of None \<Rightarrow> True | Some n \<Rightarrow> printable env n) \<and>
      (case ord of None \<Rightarrow> True | Some n \<Rightarrow> printable env n) \<and>
      (case window_list of None \<Rightarrow> True | Some l \<Rightarrow> printable_seq env l) \<and>
      (case limit of None \<Rightarrow> True | Some n \<Rightarrow> printable env n))"
| "printable env (ResTarget b indirection val name) =
     (case val of None \<Rightarrow> False | Some n \<Rightarrow> printable env n)"
| "printable env (WindowDefNode b window_name partition_list order_list frame) =
     ((case partition_list of None \<Rightarrow> True | Some l \<Rightarrow> printable_seq env l) \<and>
      (case order_list of None \<Rightarrow> True | Some l \<Rightarrow> printable_seq env l) \<and>
      (case frame of None \<Rightarrow> True | Some n \<Rightarrow> printable env n))"
| "printable env (FrameBound b bound_type offset) =
     (case offset of None \<Rightarrow> True | Some n \<Rightarrow> printable env n)"
| "printable env (FrameNode b frame_type start fin) =
     ((case start of None \<Rightarrow> True | Some n \<Rightarrow> printable env n) \<and>
      (case fin of None \<Rightarrow> True | Some n \<Rightarrow> printable env n))"
| "printable env (LimitNode b limit_cnt) = True"
| "printable env (SQLExprNode b) = True"
| "printable env (ColumnRefNode b column_name relation_name) = True"
| "printable env (OrderByNode b sort_type order_by) =
     (case order_by of None \<Rightarrow> True | Some n \<Rightarrow> printable env n)"
| "printable env (TableNode b org_table_name alias_table_name) = True"
| "printable env (FuncNode b function_name args over) =
     ((case args of None \<Rightarrow> True | Some l \<Rightarrow> printable_seq env l) \<and>
      (case over of None \<Rightarrow> True | Some n \<Rightarrow> printable env n))"
| "printable env (ConstNode b v) = (ConstNode_value env (type_m b) v \<noteq> None)"
| "printable env (OtherSqlNode b) = True"
| "printable env (UnknowSqlNode b) = True"
| "printable_seq env (SQLNodeSeq sz ns) = (0 = sz \<or> printable_cells env ns)"
| "printable_cells env [] = True"
| "printable_cells env (p # ps) =
     ((case p of None \<Rightarrow> False | Some n \<Rightarrow> printable env n) \<and> printable_cells env ps)"

subsection \<open>Construction of a select statement\<close>

text \<open>
  A select statement as the construction interface builds it: the constructor, then
  any number of calls of \<^verbatim>\<open>FillSelectAttributions\<close>, each with its four arguments.
  (The factory \<^verbatim>\<open>MakeSelectStmtNode\<close> has the same four parameters; its body is not
  part of the sources.)
\<close>

type_synonym fill_args =
  "SQLNodeSeq option \<times> SQLNodeSeq option \<times> SQLNodeSeq option \<times> SQLNode option"

fun fill_all :: "SQLNode \<Rightarrow> fill_args list \<Rightarrow> SQLNode option" where
  "fill_all s [] = Some s"
| "fill_all s ((select_list, tableref_list, window_list, limit) # rest) =
     (case FillSelectAttributions s select_list tableref_list window_list limit of
        None \<Rightarrow> None
      | Some s' \<Rightarrow> fill_all s' rest)"

text \<open>The four lines \<^verbatim>\<open>SelectStmt::Print\<close> writes for absent clauses, at indentation \<open>tab\<close>.\<close>

definition clauses_NULL :: "string \<Rightarrow> string" where
  "clauses_NULL tab =
     tab @ ''where_clause_: NULL'' @ NL @
     tab @ ''group_clause_: NULL'' @ NL @
     tab @ ''having_clause_: NULL'' @ NL @
     tab @ ''order_clause_: NULL'' @ NL"

subsection \<open>Concrete programs\<close>

text \<open>
  Lists 0, 1 and 2; the elements are the nodes at 10, 11 and 12. List 1 gets two
  elements, the empty list 0 takes them over, and list 2 gets one element.
\<close>

definition adoption_ops :: "list_op list" where
  "adoption_ops =
     [New 0, New 1, Push 1 (Some 10) 0, Push 1 (Some 11) 1, Append 0 (Some 1),
      New 2, Push 2 (Some 12) 2]"

text \<open>The same calls, followed by the append of list 2, in a store that holds the three nodes.\<close>

definition leak_setup :: "heap option" where
  "leak_setup =
     do {
       h \<leftarrow> new_node empty_heap 10 LeafObj;
       h \<leftarrow> new_node h 11 LeafObj;
       h \<leftarrow> new_node h 12 LeafObj;
       run_ops h (adoption_ops @ [Append 0 (Some 2)])
     }"

text \<open>A list of one element and two empty lists.\<close>

definition one_and_empties_ops :: "list_op list" where
  "one_and_empties_ops = [New 0, Push 0 (Some 10) 0, New 1, New 2]"

text \<open>
  Lists 0 and 1: list 1 gets two elements and the empty list 0 takes them over. Both
  lists now start at the same cell.
\<close>

definition taken_over_ops :: "list_op list" where
  "taken_over_ops =
     [New 0, New 1, Push 1 (Some 10) 0, Push 1 (Some 11) 1, Append 0 (Some 1)]"

text \<open>A list of one element.\<close>

definition single_ops :: "list_op list" where
  "single_ops = [New 0, Push 0 (Some 10) 0]"

text \<open>Two lists of one element each, as \<^verbatim>\<open>PushFront\<close> builds them.\<close>

definition two_lists :: heap where
  "two_lists =
     \<lparr>cells = [0 \<mapsto> \<lparr>node_ptr_m = Some 10, next_m = None\<rparr>,
               1 \<mapsto> \<lparr>node_ptr_m = Some 11, next_m = None\<rparr>],
      nodelists = [0 \<mapsto> \<lparr>size_m = 1, head_m = Some 0, tail_m = Some 0\<rparr>,
               1 \<mapsto> \<lparr>size_m = 1, head_m = Some 1, tail_m = Some 1\<rparr>],
      nodes = Map.empty\<rparr>"

text \<open>
  A select statement with an empty target list and a limit of \<open>cnt\<close>, no table
  references and no windows.
\<close>

definition select_example :: "32 word \<Rightarrow> SQLNode option" where
  "select_example cnt =
     FillSelectAttributions new_SelectStmt (Some empty_SQLNodeSeq) None None
       (Some (new_LimitNode cnt))"

definition select_args :: "fill_args list" where
  "select_args = [(Some empty_SQLNodeSeq, None, None, Some (new_LimitNode 10))]"

definition select_text :: string where
  "select_text =
     ''+kSelectStmt'' @ NL @
     ''+'' @ TAB @ ''select_list: '' @ NL @
     ''+'' @ TAB @ TAB @ ''[]'' @ NL @
     ''+'' @ TAB @ ''tableref_list_ptr_: NULL'' @ NL @
     ''+'' @ TAB @ ''where_clause_: NULL'' @ NL @
     ''+'' @ TAB @ ''group_clause_: NULL'' @ NL @
     ''+'' @ TAB @ ''having_clause_: NULL'' @ NL @
     ''+'' @ TAB @ ''order_clause_: NULL'' @ NL @
     ''+'' @ TAB @ ''window_list_ptr_: NULL'' @ NL @
     ''+'' @ TAB @ ''limit_clause_: '' @ NL @
     ''+'' @ TAB @ ''kLimit'' @ NL"

text \<open>The frame \<^verbatim>\<open>ROWS BETWEEN 3 PRECEDING AND CURRENT ROW\<close> and its print.\<close>

definition frame_example :: SQLNode where
  "frame_example =
     new_FrameNode kFrameRows
       (Some (new_FrameBound kPreceding (Some (ConstNode_int 3))))
       (Some (new_FrameBound kCurrent None))"

definition frame_example_text :: string where
  "frame_example_text =
     ''+kFrames'' @ NL @
     ''+'' @ TAB @ ''frames_type_ : ROWS'' @ NL @
     ''+'' @ TAB @ ''start: '' @ NL @
     ''+'' @ TAB @ TAB @ ''kFrameBound'' @ NL @
     ''+'' @ TAB @ TAB @ TAB @ ''bound: PRECEDING'' @ NL @
     ''+'' @ TAB @ TAB @ TAB @ TAB @ ''kInt'' @ NL @
     ''+'' @ TAB @ TAB @ TAB @ TAB @ TAB @ ''value: 3'' @ NL @
     ''+'' @ TAB @ ''end: '' @ NL @
     ''+'' @ TAB @ TAB @ ''kFrameBound'' @ NL @
     ''+'' @ TAB @ TAB @ TAB @ ''bound: CURRENT'' @ NL @
     ''+'' @ TAB @ TAB @ TAB @ TAB @ ''UNBOUNDED''"

section \<open>Properties of the node list\<close>

subsection \<open>Chains of cells\<close>

lemma chain_determ: "chain cs p as \<Longrightarrow> chain cs p bs \<Longrightarrow> as = bs"
proof (induction as arbitrary: p bs)
  case Nil
  then show ?case by (cases bs) auto
next
  case (Cons a as)
  then show ?case by (cases bs) (auto split: option.splits)
qed

lemma chain_upd_other: "t \<notin> set as \<Longrightarrow> chain (cs(t \<mapsto> c)) p as = chain cs p as"
  by (induction as arbitrary: p) (auto split: option.splits)

lemma chain_append:
  "chain cs p (as @ bs) \<Longrightarrow> bs \<noteq> [] \<Longrightarrow> chain cs (Some (hd bs)) bs"
  by (induction as arbitrary: p) (auto split: option.splits simp: neq_Nil_conv)

lemma chain_suffix: "chain cs p (as @ a # bs) \<Longrightarrow> chain cs (Some a) (a # bs)"
  using chain_append [of cs p as "a # bs"] by simp

text \<open>A chain that ends in \<^verbatim>\<open>NULL\<close> meets no cell twice.\<close>

lemma chain_hd_notin_tl:
  assumes "chain cs (Some a) (a # as)"
  shows "a \<notin> set as"
proof
  assume "a \<in> set as"
  then obtain us vs where "as = us @ a # vs" by (auto simp: in_set_conv_decomp)
  with assms have "chain cs (Some a) ((a # us) @ a # vs)" by simp
  then have "chain cs (Some a) (a # vs)" by (rule chain_suffix)
  with assms have "a # as = a # vs" by (rule chain_determ)
  with \<open>as = us @ a # vs\<close> show False by simp
qed

lemma chain_distinct: "chain cs p as \<Longrightarrow> distinct as"
proof (induction as arbitrary: p)
  case Nil
  then show ?case by simp
next
  case (Cons a as)
  from Cons.prems have "chain cs (Some a) (a # as)" by simp
  then have "a \<notin> set as" by (rule chain_hd_notin_tl)
  moreover from Cons.prems Cons.IH have "distinct as" by (auto split: option.splits)
  ultimately show ?case by simp
qed

text \<open>The traversal of a chain ends within as much fuel as the chain has cells.\<close>

lemma traverse_chain:
  "chain cs p as \<Longrightarrow> length as \<le> fuel \<Longrightarrow>
   traverse fuel cs p =
     Some (map (\<lambda>a. case cs a of None \<Rightarrow> None | Some c \<Rightarrow> node_ptr_m c) as)"
proof (induction as arbitrary: p fuel)
  case Nil
  then show ?case by simp
next
  case (Cons a as)
  then obtain k where "fuel = Suc k" by (cases fuel) auto
  with Cons show ?case by (auto split: option.splits)
qed

text \<open>More fuel does not change the result of a traversal that has ended.\<close>

lemma traverse_fuel_mono:
  "traverse n cs p = Some xs \<Longrightarrow> n \<le> m \<Longrightarrow> traverse m cs p = Some xs"
proof (induction n arbitrary: m p xs)
  case 0
  then show ?case by (cases p) simp_all
next
  case (Suc n)
  show ?case
  proof (cases p)
    case None
    with Suc.prems show ?thesis by simp
  next
    case (Some a)
    from Suc.prems(2) obtain k where m: "m = Suc k" and k: "n \<le> k" by (cases m) auto
    from Suc.prems(1) Some obtain c ys where c: "cs a = Some c"
      and ys: "traverse n cs (next_m c) = Some ys" and xs: "xs = node_ptr_m c # ys"
      by (auto split: option.splits)
    from ys k have "traverse k cs (next_m c) = Some ys" by (rule Suc.IH)
    with Some m c xs show ?thesis by simp
  qed
qed

lemma elements_unique:
  assumes "elements n h a = Some xs" and "elements m h a = Some ys"
  shows "xs = ys"
proof -
  from assms obtain l where l: "nodelists h a = Some l"
    and 1: "traverse n (cells h) (head_m l) = Some xs"
    and 2: "traverse m (cells h) (head_m l) = Some ys"
    by (auto simp: elements_def split: option.splits)
  from 1 have "traverse (max n m) (cells h) (head_m l) = Some xs"
    by (rule traverse_fuel_mono) simp
  moreover from 2 have "traverse (max n m) (cells h) (head_m l) = Some ys"
    by (rule traverse_fuel_mono) simp
  ultimately show ?thesis by simp
qed

text \<open>Pointing a cell of one chain at the head of another chain.\<close>

lemma chain_redirect:
  assumes "chain cs p (xs @ t # ys)" and "cs t = Some c" and "chain cs q bs" and "t \<notin> set bs"
  shows "chain (cs(t \<mapsto> c\<lparr>next_m := q\<rparr>)) p (xs @ t # bs)"
  using assms(1)
proof (induction xs arbitrary: p)
  case Nil
  from assms(4) have "chain (cs(t \<mapsto> c\<lparr>next_m := q\<rparr>)) q bs = chain cs q bs"
    by (rule chain_upd_other)
  with assms(3) have "chain (cs(t \<mapsto> c\<lparr>next_m := q\<rparr>)) q bs" by simp
  moreover have "next_m (c\<lparr>next_m := q\<rparr>) = q" by simp
  moreover from Nil have "p = Some t" by simp
  ultimately show ?case
    by (simp only: append_Nil chain.simps fun_upd_same option.case simp_thms)
next
  case (Cons x xs)
  from Cons.prems have "distinct ((x # xs) @ t # ys)" by (rule chain_distinct)
  then have "x \<noteq> t" by auto
  with Cons show ?case by (auto split: option.splits)
qed

lemma node_ptrs_upd_other:
  "t \<notin> set as \<Longrightarrow>
   map (\<lambda>a. case (cs(t \<mapsto> c)) a of None \<Rightarrow> None | Some c \<Rightarrow> node_ptr_m c) as =
   map (\<lambda>a. case cs a of None \<Rightarrow> None | Some c \<Rightarrow> node_ptr_m c) as"
  by (induction as) auto

subsection \<open>Lists in their representation invariant\<close>

lemma chain_in_dom: "chain cs p as \<Longrightarrow> set as \<subseteq> dom cs"
  by (induction as arbitrary: p) (auto split: option.splits)

lemma list_inv_elements:
  "list_inv h a as \<Longrightarrow> elements (length as) h a = Some (node_ptrs h as)"
  by (auto simp: list_inv_def elements_def node_ptrs_def traverse_chain split: option.splits)

lemma list_inv_Size:
  "list_inv h a as \<Longrightarrow> Size h a = Some (of_nat (length as))"
  by (auto simp: list_inv_def Size_def split: option.splits)

lemma new_SQLNodeList_list_inv:
  "nodelists h a = None \<Longrightarrow> \<exists>h'. new_SQLNodeList h a = Some h' \<and> list_inv h' a []"
  by (simp add: new_SQLNodeList_def list_inv_def)

text \<open>
  \<^verbatim>\<open>PushFront\<close> keeps the invariant and puts the new element in front: the last
  element pushed is the first one met.
\<close>

lemma PushFront_list_inv:
  assumes inv: "list_inv h a as" and free: "cells h c = None"
  shows "\<exists>h'. PushFront h a n c = Some h' \<and> list_inv h' a (c # as) \<and>
              node_ptrs h' (c # as) = n # node_ptrs h as"
proof -
  from inv obtain l where l: "nodelists h a = Some l"
    and ch: "chain (cells h) (head_m l) as"
    and sz: "size_m l = of_nat (length as)"
    and tl: "tail_m l = (if as = [] then None else Some (last as))"
    by (auto simp: list_inv_def split: option.splits)
  from ch have "set as \<subseteq> dom (cells h)" by (rule chain_in_dom)
  with free have notin: "c \<notin> set as" by auto
  let ?cell = "\<lparr>node_ptr_m = n, next_m = head_m l\<rparr>"
  let ?l0 = "l\<lparr>head_m := Some c, size_m := size_m l + 1\<rparr>"
  let ?l = "if as = [] then ?l0\<lparr>tail_m := Some c\<rparr> else ?l0"
  let ?h = "h\<lparr>cells := (cells h)(c \<mapsto> ?cell), nodelists := (nodelists h)(a \<mapsto> ?l)\<rparr>"
  from l free tl have 1: "PushFront h a n c = Some ?h"
    by (simp add: PushFront_def Let_def)
  from notin have "chain ((cells h)(c \<mapsto> ?cell)) (head_m l) as = chain (cells h) (head_m l) as"
    by (rule chain_upd_other)
  with ch have "chain ((cells h)(c \<mapsto> ?cell)) (Some c) (c # as)" by simp
  with sz tl have 2: "list_inv ?h a (c # as)" by (simp add: list_inv_def)
  from notin have 3: "node_ptrs ?h (c # as) = n # node_ptrs h as"
    by (auto simp: node_ptrs_def)
  from 1 2 3 show ?thesis by blast
qed

text \<open>
  For two lists in their invariant that share no cell, \<^verbatim>\<open>AppendNodeList\<close> does what
  C1 says: the size is the sum (in \<^verbatim>\<open>size_t\<close>) and the traversal yields the elements
  of the target followed by those of the source. The result need not be in the
  invariant again: its \<^verbatim>\<open>tail_\<close> is the source's \<^verbatim>\<open>head_\<close> when the target was
  empty, and \<^verbatim>\<open>NULL\<close> when the source was.
\<close>

lemma AppendNodeList_list_inv:
  assumes a: "list_inv h a as" and b: "list_inv h b bs"
    and ab: "a \<noteq> b" and disj: "set as \<inter> set bs = {}"
  shows "\<exists>h'. AppendNodeList h a (Some b) = Some h' \<and>
              Size h' a = Some (of_nat (length as + length bs)) \<and>
              elements (length as + length bs) h' a = Some (node_ptrs h as @ node_ptrs h bs) \<and>
              nodelists h' b = nodelists h b"
proof -
  from a obtain A where A: "nodelists h a = Some A"
    and ca: "chain (cells h) (head_m A) as"
    and sa: "size_m A = of_nat (length as)"
    and ta: "tail_m A = (if as = [] then None else Some (last as))"
    by (auto simp: list_inv_def split: option.splits)
  from b obtain B where B: "nodelists h b = Some B"
    and cb: "chain (cells h) (head_m B) bs"
    and sb: "size_m B = of_nat (length bs)"
    by (auto simp: list_inv_def split: option.splits)
  show ?thesis
  proof (cases "as = []")
    case True
    with ta have "tail_m A = None" by simp
    with A B have 1: "AppendNodeList h a (Some b) =
        Some (h\<lparr>nodelists := (nodelists h)(a \<mapsto>
                A\<lparr>head_m := head_m B, tail_m := head_m B, size_m := size_m B\<rparr>)\<rparr>)"
      by (simp add: AppendNodeList_def)
    from cb have "traverse (length bs) (cells h) (head_m B) = Some (node_ptrs h bs)"
      unfolding node_ptrs_def by (rule traverse_chain) simp
    with 1 True sb ab show ?thesis
      by (simp add: Size_def elements_def node_ptrs_def)
  next
    case False
    then obtain xs t where as: "as = xs @ [t]" by (cases as rule: rev_cases) auto
    with ta have tail: "tail_m A = Some t" by simp
    from as disj have tnotin: "t \<notin> set bs" by auto
    from ca as have ca': "chain (cells h) (head_m A) (xs @ t # [])" by simp
    then have "chain (cells h) (Some t) (t # [])" by (rule chain_suffix)
    then obtain c where c: "cells h t = Some c" by (auto split: option.splits)
    from ca' have "distinct (xs @ t # [])" by (rule chain_distinct)
    then have tx: "t \<notin> set xs" by simp
    let ?cs = "(cells h)(t \<mapsto> c\<lparr>next_m := head_m B\<rparr>)"
    let ?h = "h\<lparr>cells := ?cs,
                nodelists := (nodelists h)(a \<mapsto>
                  A\<lparr>tail_m := tail_m B, size_m := size_m A + size_m B\<rparr>)\<rparr>"
    from A B tail c have 1: "AppendNodeList h a (Some b) = Some ?h"
      by (simp add: AppendNodeList_def)
    from sa sb have 2: "Size ?h a = Some (of_nat (length as + length bs))"
      by (simp add: Size_def)
    from ca' c cb tnotin have "chain ?cs (head_m A) (xs @ t # bs)" by (rule chain_redirect)
    then have "traverse (length (xs @ t # bs)) ?cs (head_m A) =
        Some (map (\<lambda>a. case ?cs a of None \<Rightarrow> None | Some c \<Rightarrow> node_ptr_m c) (xs @ t # bs))"
      by (rule traverse_chain) simp
    moreover from tx tnotin c have
      "map (\<lambda>a. case ?cs a of None \<Rightarrow> None | Some c \<Rightarrow> node_ptr_m c) (xs @ t # bs) =
       node_ptrs h (xs @ [t]) @ node_ptrs h bs"
      by (auto simp: node_ptrs_def)
    ultimately have 3: "elements (length as + length bs) ?h a =
        Some (node_ptrs h as @ node_ptrs h bs)"
      using as by (simp add: elements_def)
    from ab have 4: "nodelists ?h b = nodelists h b" by simp
    from 1 2 3 4 show ?thesis by blast
  qed
qed

lemma two_lists_list_inv: "list_inv two_lists 0 [0] \<and> list_inv two_lists 1 [1]"
  by (simp add: list_inv_def two_lists_def)

subsection \<open>Appending\<close>

text \<open>
  Claim C1. Appending a list \<open>B\<close> of size \<open>m\<close> onto a list \<open>A\<close> of size \<open>n\<close> should leave
  \<open>A\<close> with size \<open>n + m\<close> and with its own elements followed by those of \<open>B\<close>. The code
  does not do so for every list its own operations build. After \<open>adoption_ops\<close> list 0
  has size 2 and the elements 11, 10 (it took them over from list 1 while it was empty,
  and \<^verbatim>\<open>tail_ = head_\<close> left its tail at the first cell), and list 2 has size 1 and the
  element 12. Appending list 2 onto list 0 gives size 3, but the traversal yields
  11, 12: the element 10 is gone, and no amount of fuel brings it back.
\<close>

theorem AppendNodeList_after_adoption_loses_element:
  "(case run_ops empty_heap adoption_ops of
      None \<Rightarrow> False
    | Some h \<Rightarrow>
        Size h 0 = Some 2 \<and> elements 2 h 0 = Some [Some 11, Some 10] \<and>
        Size h 2 = Some 1 \<and> elements 1 h 2 = Some [Some 12] \<and>
        (case AppendNodeList h 0 (Some 2) of
           None \<Rightarrow> False
         | Some h' \<Rightarrow>
             Size h' 0 = Some 3 \<and> elements 3 h' 0 = Some [Some 11, Some 12] \<and>
             (\<forall>fuel. elements fuel h' 0 \<noteq> Some [Some 11, Some 10, Some 12])))"
proof -
  obtain h where h: "run_ops empty_heap adoption_ops = Some h"
    by (simp add: adoption_ops_def new_SQLNodeList_def PushFront_def AppendNodeList_def
      elements_def Size_def empty_heap_def Let_def)
  obtain h' where h': "AppendNodeList h 0 (Some 2) = Some h'"
    using h by (auto simp: adoption_ops_def new_SQLNodeList_def PushFront_def AppendNodeList_def
      elements_def Size_def empty_heap_def Let_def)
  from h have before: "Size h 0 = Some 2" "elements 2 h 0 = Some [Some 11, Some 10]"
    "Size h 2 = Some 1" "elements 1 h 2 = Some [Some 12]"
    by (auto simp: adoption_ops_def new_SQLNodeList_def PushFront_def AppendNodeList_def
      elements_def Size_def empty_heap_def Let_def eval_nat_numeral)
  from h h' have after: "Size h' 0 = Some 3" "elements 3 h' 0 = Some [Some 11, Some 12]"
    by (auto simp: adoption_ops_def new_SQLNodeList_def PushFront_def AppendNodeList_def
      elements_def Size_def empty_heap_def Let_def eval_nat_numeral)
  have "elements fuel h' 0 \<noteq> Some [Some 11, Some 10, Some 12]" for fuel
  proof
    assume "elements fuel h' 0 = Some [Some 11, Some 10, Some 12]"
    with after(2) have "[Some 11, Some 12] = [Some 11, Some 10, Some (12::addr)]"
      by (rule elements_unique)
    then show False by simp
  qed
  with h h' before after show ?thesis by simp
qed

text \<open>
  Claim C2. After every sequence of operations the reported size should be the number
  of elements the traversal reaches. After \<open>adoption_ops\<close> and the append of list 2 onto
  list 0, list 0 reports size 3 and the traversal reaches 2 elements, whatever the
  fuel.
\<close>

theorem size_exceeds_traversal_after_appends:
  "(case run_ops empty_heap (adoption_ops @ [Append 0 (Some 2)]) of
      None \<Rightarrow> False
    | Some h \<Rightarrow>
        Size h 0 = Some 3 \<and> map_option length (elements 3 h 0) = Some 2 \<and>
        (\<forall>fuel. map_option length (elements fuel h 0) \<noteq> Some 3))"
proof -
  obtain h where h: "run_ops empty_heap (adoption_ops @ [Append 0 (Some 2)]) = Some h"
    by (simp add: adoption_ops_def new_SQLNodeList_def PushFront_def AppendNodeList_def
      elements_def Size_def empty_heap_def Let_def)
  from h have facts: "Size h 0 = Some 3" "elements 3 h 0 = Some [Some 11, Some 12]"
    by (auto simp: adoption_ops_def new_SQLNodeList_def PushFront_def AppendNodeList_def
      elements_def Size_def empty_heap_def Let_def eval_nat_numeral)
  have "map_option length (elements fuel h 0) \<noteq> Some 3" for fuel
  proof
    assume "map_option length (elements fuel h 0) = Some 3"
    then obtain xs where xs: "elements fuel h 0 = Some xs" and len: "length xs = 3" by auto
    from facts(2) xs have "[Some 11, Some 12] = xs" by (rule elements_unique)
    with len show False by auto
  qed
  with h facts show ?thesis by simp
qed

text \<open>
  Claim C7. Appending an empty list onto a non-empty list should be a no-op. List 0
  holds the element 10; lists 1 and 2 are empty. Appending list 1 onto list 0 keeps the
  size and the element but sets \<^verbatim>\<open>tail_\<close> of list 0 to \<^verbatim>\<open>NULL\<close>, so the state of
  the target has changed; appending the empty list 2 onto the result, which still has
  one element, empties it.
\<close>

theorem AppendNodeList_empty_source_clears_tail:
  "(case run_ops empty_heap one_and_empties_ops of
      None \<Rightarrow> False
    | Some h \<Rightarrow>
        nodelists h 0 = Some \<lparr>size_m = 1, head_m = Some 0, tail_m = Some 0\<rparr> \<and>
        nodelists h 1 = Some \<lparr>size_m = 0, head_m = None, tail_m = None\<rparr> \<and>
        nodelists h 2 = Some \<lparr>size_m = 0, head_m = None, tail_m = None\<rparr> \<and>
        (case AppendNodeList h 0 (Some 1) of
           None \<Rightarrow> False
         | Some h1 \<Rightarrow>
             nodelists h1 0 = Some \<lparr>size_m = 1, head_m = Some 0, tail_m = None\<rparr> \<and>
             elements 1 h1 0 = Some [Some 10] \<and>
             (case AppendNodeList h1 0 (Some 2) of
                None \<Rightarrow> False
              | Some h2 \<Rightarrow>
                  nodelists h2 0 = Some \<lparr>size_m = 0, head_m = None, tail_m = None\<rparr> \<and>
                  elements 1 h2 0 = Some [])))"
  by (simp add: one_and_empties_ops_def new_SQLNodeList_def PushFront_def AppendNodeList_def
      elements_def Size_def empty_heap_def Let_def eval_nat_numeral)

text \<open>
  The parts of C7 that the code does keep: a \<^verbatim>\<open>NULL\<close> argument changes nothing, and
  a target whose \<^verbatim>\<open>tail_\<close> is \<^verbatim>\<open>NULL\<close> takes over head and size of the source.
\<close>

lemma AppendNodeList_NULL: "AppendNodeList h a None = Some h"
  by (simp add: AppendNodeList_def)

lemma AppendNodeList_adopts:
  assumes "nodelists h a = Some A" and "nodelists h b = Some B" and "tail_m A = None"
  shows "\<exists>h'. AppendNodeList h a (Some b) = Some h' \<and>
              GetHead h' a = Some (head_m B) \<and> Size h' a = Some (size_m B) \<and>
              cells h' = cells h"
  using assms by (simp add: AppendNodeList_def GetHead_def Size_def)

lemma traverse_self_loop:
  "cs p = Some c \<Longrightarrow> next_m c = Some p \<Longrightarrow> traverse fuel cs (Some p) = None"
  by (induction fuel) simp_all

text \<open>
  Claim C10, as stated: appending list \<open>B\<close> onto list \<open>A\<close> leaves \<open>B\<close> unchanged, with the
  same size and head, and the same elements are reachable by traversal from both lists
  afterwards. It fails for lists that the operations of the class build. After
  \<open>taken_over_ops\<close> list 1 has size 2 and the elements 11, 10, and list 0 has taken its
  cells over. Appending list 1 onto list 0 once more leaves size and head of list 1 as
  they were, but the first cell now points to itself: the traversal of either list does
  not end, whatever the fuel, and the element 10 is out of reach. And appending a list
  of one element onto itself changes its reported size from 1 to 2, and its traversal
  does not end either.
\<close>

theorem AppendNodeList_changes_source:
  "(case run_ops empty_heap taken_over_ops of
      None \<Rightarrow> False
    | Some h \<Rightarrow>
        Size h 1 = Some 2 \<and> GetHead h 1 = Some (Some 1) \<and>
        elements 2 h 1 = Some [Some 11, Some 10] \<and>
        (case AppendNodeList h 0 (Some 1) of
           None \<Rightarrow> False
         | Some h' \<Rightarrow>
             Size h' 1 = Some 2 \<and> GetHead h' 1 = Some (Some 1) \<and>
             cells h' 1 = Some \<lparr>node_ptr_m = Some 11, next_m = Some 1\<rparr> \<and>
             (\<forall>fuel. elements fuel h' 1 = None) \<and>
             (\<forall>fuel. elements fuel h' 0 = None))) \<and>
   (case run_ops empty_heap single_ops of
      None \<Rightarrow> False
    | Some h \<Rightarrow>
        Size h 0 = Some 1 \<and> elements 1 h 0 = Some [Some 10] \<and>
        (case AppendNodeList h 0 (Some 0) of
           None \<Rightarrow> False
         | Some h' \<Rightarrow> Size h' 0 = Some 2 \<and> (\<forall>fuel. elements fuel h' 0 = None)))"
proof -
  obtain h where h: "run_ops empty_heap taken_over_ops = Some h"
    by (simp add: taken_over_ops_def new_SQLNodeList_def PushFront_def AppendNodeList_def
      empty_heap_def Let_def)
  obtain h' where h': "AppendNodeList h 0 (Some 1) = Some h'"
    using h by (auto simp: taken_over_ops_def new_SQLNodeList_def PushFront_def AppendNodeList_def
      empty_heap_def Let_def)
  from h have before: "Size h 1 = Some 2" "GetHead h 1 = Some (Some 1)"
    "elements 2 h 1 = Some [Some 11, Some 10]"
    by (auto simp: taken_over_ops_def new_SQLNodeList_def PushFront_def AppendNodeList_def
      elements_def Size_def GetHead_def empty_heap_def Let_def eval_nat_numeral)
  from h h' have after: "Size h' 1 = Some 2" "GetHead h' 1 = Some (Some 1)"
    "cells h' 1 = Some \<lparr>node_ptr_m = Some 11, next_m = Some 1\<rparr>"
    "map_option head_m (nodelists h' 1) = Some (Some 1)"
    "map_option head_m (nodelists h' 0) = Some (Some 1)"
    by (auto simp: taken_over_ops_def new_SQLNodeList_def PushFront_def AppendNodeList_def
      elements_def Size_def GetHead_def empty_heap_def Let_def eval_nat_numeral)
  have loop: "traverse fuel (cells h') (Some 1) = None" for fuel
    using after(3) by (rule traverse_self_loop) simp
  from after(4,5) loop have never: "elements fuel h' 1 = None" "elements fuel h' 0 = None" for fuel
    by (auto simp: elements_def split: option.splits)
  obtain g where g: "run_ops empty_heap single_ops = Some g"
    by (simp add: single_ops_def new_SQLNodeList_def PushFront_def empty_heap_def Let_def)
  obtain g' where g': "AppendNodeList g 0 (Some 0) = Some g'"
    using g by (auto simp: single_ops_def new_SQLNodeList_def PushFront_def AppendNodeList_def
      empty_heap_def Let_def)
  from g have sbefore: "Size g 0 = Some 1" "elements 1 g 0 = Some [Some 10]"
    by (auto simp: single_ops_def new_SQLNodeList_def PushFront_def
      elements_def Size_def empty_heap_def Let_def)
  from g g' have safter: "Size g' 0 = Some 2"
    "cells g' 0 = Some \<lparr>node_ptr_m = Some 10, next_m = Some 0\<rparr>"
    "map_option head_m (nodelists g' 0) = Some (Some 0)"
    by (auto simp: single_ops_def new_SQLNodeList_def PushFront_def AppendNodeList_def
      Size_def empty_heap_def Let_def)
  have sloop: "traverse fuel (cells g') (Some 0) = None" for fuel
    using safter(2) by (rule traverse_self_loop) simp
  from safter(3) sloop have snever: "elements fuel g' 0 = None" for fuel
    by (auto simp: elements_def split: option.splits)
  from h h' before after(1,2,3) never g g' sbefore safter(1) snever show ?thesis by simp
qed

text \<open>
  Claim C10, amended: appending list \<open>b\<close> onto another list \<open>a\<close> leaves the header of \<open>b\<close>
  as it was (size, head and tail), the traversal of \<open>b\<close> yields the same elements as
  before, and the traversal of \<open>a\<close> ends with them, provided that the lists are two
  objects, both are chains that end in \<^verbatim>\<open>NULL\<close>, and the tail cell of \<open>a\<close>, if it has
  one, lies on the chain of \<open>a\<close> and not on the chain of \<open>b\<close>.
\<close>

theorem AppendNodeList_source_unchanged:
  assumes ab: "a \<noteq> b"
    and A: "nodelists h a = Some A" and B: "nodelists h b = Some B"
    and ca: "chain (cells h) (head_m A) as"
    and cb: "chain (cells h) (head_m B) bs"
    and t: "\<forall>t. tail_m A = Some t \<longrightarrow> t \<in> set as \<and> t \<notin> set bs"
  shows "\<exists>h' ns pre.
           AppendNodeList h a (Some b) = Some h' \<and>
           nodelists h' b = nodelists h b \<and>
           Size h' b = Size h b \<and>
           GetHead h' b = GetHead h b \<and>
           elements (length bs) h b = Some ns \<and>
           elements (length bs) h' b = Some ns \<and>
           elements (length pre + length bs) h' a = Some (pre @ ns)"
proof -
  let ?np = "\<lambda>cs a. case cs a of None \<Rightarrow> None | Some c \<Rightarrow> node_ptr_m c"
  let ?ns = "map (?np (cells h)) bs"
  from cb have before: "traverse (length bs) (cells h) (head_m B) = Some ?ns"
    by (rule traverse_chain) simp
  show ?thesis
  proof (cases "tail_m A")
    case None
    let ?l = "A\<lparr>head_m := head_m B, tail_m := head_m B, size_m := size_m B\<rparr>"
    let ?h = "h\<lparr>nodelists := (nodelists h)(a \<mapsto> ?l)\<rparr>"
    from A B None have 1: "AppendNodeList h a (Some b) = Some ?h"
      by (simp add: AppendNodeList_def)
    from ab B have 2: "nodelists ?h b = nodelists h b" by simp
    from 2 have 3: "Size ?h b = Size h b" "GetHead ?h b = GetHead h b"
      by (simp_all add: Size_def GetHead_def)
    from B before have 4: "elements (length bs) h b = Some ?ns" by (simp add: elements_def)
    from ab B before have 5: "elements (length bs) ?h b = Some ?ns" by (simp add: elements_def)
    from before have 6: "elements (length ([]::addr option list) + length bs) ?h a = Some ([] @ ?ns)"
      by (simp add: elements_def)
    from 1 2 3 4 5 6 show ?thesis by blast
  next
    case (Some t)
    with t have tin: "t \<in> set as" and tnotin: "t \<notin> set bs" by auto
    from tin obtain xs ys where as: "as = xs @ t # ys" by (auto simp: in_set_conv_decomp)
    from ca as have ca': "chain (cells h) (head_m A) (xs @ t # ys)" by simp
    then have "chain (cells h) (Some t) (t # ys)" by (rule chain_suffix)
    then obtain c where c: "cells h t = Some c" by (auto split: option.splits)
    let ?cs = "(cells h)(t \<mapsto> c\<lparr>next_m := head_m B\<rparr>)"
    let ?l = "A\<lparr>tail_m := tail_m B, size_m := size_m A + size_m B\<rparr>"
    let ?h = "h\<lparr>cells := ?cs, nodelists := (nodelists h)(a \<mapsto> ?l)\<rparr>"
    let ?pre = "map (?np ?cs) (xs @ [t])"
    from A B Some c have 1: "AppendNodeList h a (Some b) = Some ?h"
      by (simp add: AppendNodeList_def)
    from ab B have 2: "nodelists ?h b = nodelists h b" by simp
    from 2 have 3: "Size ?h b = Size h b" "GetHead ?h b = GetHead h b"
      by (simp_all add: Size_def GetHead_def)
    from B before have 4: "elements (length bs) h b = Some ?ns" by (simp add: elements_def)
    from tnotin have same: "map (?np ?cs) bs = ?ns" by (rule node_ptrs_upd_other)
    from tnotin have "chain ?cs (head_m B) bs = chain (cells h) (head_m B) bs"
      by (rule chain_upd_other)
    with cb have "chain ?cs (head_m B) bs" by simp
    then have "traverse (length bs) ?cs (head_m B) = Some (map (?np ?cs) bs)"
      by (rule traverse_chain) simp
    with same ab B have 5: "elements (length bs) ?h b = Some ?ns" by (simp add: elements_def)
    from ca' c cb tnotin have "chain ?cs (head_m A) (xs @ t # bs)" by (rule chain_redirect)
    then have "traverse (length (xs @ t # bs)) ?cs (head_m A) = Some (map (?np ?cs) (xs @ t # bs))"
      by (rule traverse_chain) simp
    with same have "traverse (length ?pre + length bs) ?cs (head_m A) = Some (?pre @ ?ns)"
      by simp
    then have 6: "elements (length ?pre + length bs) ?h a = Some (?pre @ ?ns)"
      by (simp add: elements_def)
    from 1 2 3 4 5 6 show ?thesis by blast
  qed
qed

lemma two_lists_built:
  "run_ops empty_heap [New 0, Push 0 (Some 10) 0, New 1, Push 1 (Some 11) 1] = Some two_lists"
  by (simp add: new_SQLNodeList_def PushFront_def AppendNodeList_def
      elements_def Size_def empty_heap_def Let_def two_lists_def fun_upd_twist)

theorem AppendNodeList_source_unchanged_witness:
  "nodelists two_lists 0 = Some \<lparr>size_m = 1, head_m = Some 0, tail_m = Some 0\<rparr> \<and>
   nodelists two_lists 1 = Some \<lparr>size_m = 1, head_m = Some 1, tail_m = Some 1\<rparr> \<and>
   chain (cells two_lists) (Some 0) [0] \<and> chain (cells two_lists) (Some 1) [1] \<and>
   (\<exists>h' ns pre.
      AppendNodeList two_lists 0 (Some 1) = Some h' \<and>
      nodelists h' 1 = nodelists two_lists 1 \<and>
      Size h' 1 = Size two_lists 1 \<and>
      GetHead h' 1 = GetHead two_lists 1 \<and>
      elements (length [1::addr]) two_lists 1 = Some ns \<and>
      elements (length [1::addr]) h' 1 = Some ns \<and>
      elements (length pre + length [1::addr]) h' 0 = Some (pre @ ns))"
proof -
  have A: "nodelists two_lists 0 = Some \<lparr>size_m = 1, head_m = Some 0, tail_m = Some 0\<rparr>"
    and B: "nodelists two_lists 1 = Some \<lparr>size_m = 1, head_m = Some 1, tail_m = Some 1\<rparr>"
    by (simp_all add: two_lists_def)
  have ca: "chain (cells two_lists) (head_m \<lparr>size_m = 1, head_m = Some 0, tail_m = Some 0\<rparr>) [0]"
    and cb: "chain (cells two_lists) (head_m \<lparr>size_m = 1, head_m = Some 1, tail_m = Some 1\<rparr>) [1]"
    by (simp_all add: two_lists_def)
  have t: "\<forall>t. tail_m \<lparr>size_m = 1, head_m = Some 0, tail_m = Some 0\<rparr> = Some t \<longrightarrow>
             t \<in> set [0] \<and> t \<notin> set [1::addr]"
    by simp
  have ne: "(0::addr) \<noteq> 1" by simp
  from AppendNodeList_source_unchanged [OF ne A B ca cb t] A B ca cb
  show ?thesis by simp
qed

section \<open>Properties of destruction\<close>

text \<open>
  Claim C8. Destroying a list should destroy every element it owns exactly once. In
  \<open>leak_setup\<close> list 0 has taken over the elements 11 and 10 of list 1 and then the
  element 12 of list 2; neither list 1 nor list 2 is destroyed. \<^verbatim>\<open>delete\<close> of list 0
  ends without undefined behaviour and frees the list, the cells 1 and 2 and the nodes
  11 and 12; the cell 0 and its node 10 are still allocated, and no pointer of list 0
  led to them.
\<close>

theorem delete_SQLNodeList_leaks_adopted_element:
  "(case leak_setup of
      None \<Rightarrow> False
    | Some h \<Rightarrow>
        (case delete_SQLNodeList 8 h (Some 0) of
           None \<Rightarrow> False
         | Some h' \<Rightarrow>
             nodelists h' 0 = None \<and>
             cells h' 1 = None \<and> nodes h' 11 = None \<and>
             cells h' 2 = None \<and> nodes h' 12 = None \<and>
             cells h' 0 = Some \<lparr>node_ptr_m = Some 10, next_m = None\<rparr> \<and>
             nodes h' 10 = Some LeafObj))"
  by (simp add: leak_setup_def adoption_ops_def new_node_def new_SQLNodeList_def PushFront_def
      AppendNodeList_def empty_heap_def Let_def free_node_def free_cell_def free_list_def
      eval_nat_numeral)

section \<open>Properties of literals\<close>

text \<open>Every constructor stores its argument where the matching accessor finds it.\<close>

lemma ConstNode_accessors:
  "GetInt (ConstNode_int i) = Some i"
  "GetLong (ConstNode_long l) = Some l"
  "GetFloat (ConstNode_float f) = Some f"
  "GetDouble (ConstNode_double d) = Some d"
  "GetStr (ConstNode_cstr p) = Some p"
  "GetStr (ConstNode_string a) = Some (Some a)"
  by (simp_all add: ConstNode_int_def ConstNode_long_def ConstNode_float_def ConstNode_double_def
      ConstNode_cstr_def ConstNode_string_def)

text \<open>
  Claim C5. A literal should hand back the value it was built from. The text literal
  built from a \<^verbatim>\<open>std::string\<close> keeps the address of that string's buffer (here 7,
  holding \<^verbatim>\<open>abc\<close>): while the string lives the accessor finds the text, and once
  the string is destroyed the pointer that \<^verbatim>\<open>GetStr\<close> returns leads to no text.
\<close>

theorem ConstNode_string_dangles:
  "GetStr_text [7 \<mapsto> ''abc''] (ConstNode_string 7) = Some ''abc'' \<and>
   GetStr_text (string_dtor [7 \<mapsto> ''abc''] 7) (ConstNode_string 7) = None"
  by (simp add: GetStr_text_def ConstNode_string_def text_at_def string_dtor_def)

section \<open>Properties of the debug printer\<close>

lemma cat_eq_Some_Cons:
  "cat (x # xs) = Some out \<longleftrightarrow> (\<exists>s r. x = Some s \<and> cat xs = Some r \<and> out = s @ r)"
  by (cases x) auto

lemma sublistI: "ys = ps @ xs @ ss \<Longrightarrow> sublist xs ys"
  by (auto simp: sublist_def)

lemma suffixI2: "ys = zs @ xs \<Longrightarrow> suffix xs ys"
  by (rule suffixI)

lemma show_int_3: "show_int 3 = ''3''"
  by code_simp

lemma cat_None_iff: "cat xs = None \<longleftrightarrow> None \<in> set xs"
  by (induction xs) (auto split: option.splits)

lemma cat_None_iff2: "None = cat xs \<longleftrightarrow> None \<in> set xs"
  using cat_None_iff [of xs] by auto

subsection \<open>When the print returns\<close>

text \<open>
  \<^verbatim>\<open>Print\<close> returns on the printable nodes, whatever the indentation, and on no other.
\<close>

lemma cat_ex_Some: "(\<exists>y. cat xs = Some y) \<longleftrightarrow> None \<notin> set xs"
  using cat_None_iff [of xs] by auto

lemma None_eq_iff: "(None = x) = (x = None)"
  by auto

lemma case_opt_None1:
  "((case c of None \<Rightarrow> Some x | Some n \<Rightarrow> f n) = None) =
   (case c of None \<Rightarrow> False | Some n \<Rightarrow> f n = None)"
  by (cases c) auto

lemma case_opt_None2:
  "(None = (case c of None \<Rightarrow> Some x | Some n \<Rightarrow> f n)) =
   (case c of None \<Rightarrow> False | Some n \<Rightarrow> f n = None)"
  by (cases c) auto

lemma printable_Print:
  "printable env n \<longrightarrow> Print env n tab \<noteq> None"
  "printable_seq env l \<longrightarrow> SQLNodeList_Print env l tab \<noteq> None"
  "printable_cells env ps \<longrightarrow> Print_cells env ps tab \<noteq> None"
proof (induction env n tab and env l tab and env ps tab rule: Print_SQLNodeList_Print_Print_cells.induct)
  case (1 env b distinct_opt limit select_list tableref_list wh grp hav ord window_list orgTab)
  show ?case
  proof
    assume pr: "printable env (SelectStmt b distinct_opt limit select_list tableref_list wh grp hav ord window_list)"
    have c1: "\<not> (case select_list of None \<Rightarrow> False | Some l \<Rightarrow> SQLNodeList_Print env l (orgTab @ TAB @ TAB) = None)"
      using pr 1(1) by (cases select_list) auto
    have c2: "\<not> (case tableref_list of None \<Rightarrow> False | Some l \<Rightarrow> SQLNodeList_Print env l (orgTab @ TAB @ TAB) = None)"
      using pr 1(2) by (cases tableref_list) auto
    have c3: "\<not> (case wh of None \<Rightarrow> False | Some n \<Rightarrow> Print env n (orgTab @ TAB) = None)"
      using pr 1(3) by (cases wh) auto
    have c4: "\<not> (case grp of None \<Rightarrow> False | Some n \<Rightarrow> Print env n (orgTab @ TAB) = None)"
      using pr 1(4) by (cases grp) auto
    have c5: "\<not> (case hav of None \<Rightarrow> False | Some n \<Rightarrow> Print env n SPACE_ST = None)"
      using pr 1(5) by (cases hav) auto
    have c6: "\<not> (case ord of None \<Rightarrow> False | Some n \<Rightarrow> Print env n SPACE_ST = None)"
      using pr 1(6) by (cases ord) auto
    have c7: "\<not> (case window_list of None \<Rightarrow> False | Some l \<Rightarrow> SQLNodeList_Print env l (orgTab @ TAB @ TAB) = None)"
      using pr 1(7) by (cases window_list) auto
    have c8: "\<not> (case limit of None \<Rightarrow> False | Some n \<Rightarrow> Print env n (orgTab @ TAB) = None)"
      using pr 1(8) by (cases limit) auto
    from c1 c2 c3 c4 c5 c6 c7 c8
    show "Print env (SelectStmt b distinct_opt limit select_list tableref_list wh grp hav ord window_list) orgTab \<noteq> None"
      by (simp add: Let_def cat_None_iff cat_None_iff2 case_opt_None1 case_opt_None2 None_eq_iff
          del: cat.simps cong: option.case_cong)
  qed
next
  case (11 env b function_name args over orgTab)
  show ?case
  proof
    assume pr: "printable env (FuncNode b function_name args over)"
    have a: "(case args of
                None \<Rightarrow> Some ((orgTab @ TAB @ TAB) @ ''[]'')
              | Some (SQLNodeSeq sz ns) \<Rightarrow>
                  if 0 = sz then Some ((orgTab @ TAB @ TAB) @ ''[]'')
                  else SQLNodeList_Print env (SQLNodeSeq sz ns) (orgTab @ TAB @ TAB)) \<noteq> None"
    proof (cases args)
      case None
      then show ?thesis by simp
    next
      case (Some l)
      obtain sz ns where l: "l = SQLNodeSeq sz ns" by (cases l)
      show ?thesis
      proof (cases "0 = sz")
        case True
        with Some l show ?thesis by simp
      next
        case False
        from pr Some l have "printable_seq env (SQLNodeSeq sz ns)" by simp
        with 11(1) Some l False
        have "SQLNodeList_Print env (SQLNodeSeq sz ns) (orgTab @ TAB @ TAB) \<noteq> None"
          by blast
        with Some l False show ?thesis by simp
      qed
    qed
    have o: "\<not> (case over of None \<Rightarrow> False | Some n \<Rightarrow> Print env n (orgTab @ TAB @ TAB) = None)"
      using pr 11(2) by (cases over) auto
    from a o show "Print env (FuncNode b function_name args over) orgTab \<noteq> None"
      by (simp add: Let_def cat_None_iff cat_None_iff2 case_opt_None1 case_opt_None2 None_eq_iff
          del: cat.simps cong: option.case_cong)
  qed
qed (auto simp: Let_def cat_None_iff cat_None_iff2 cat_ex_Some None_eq_iff simp del: cat.simps
    split: option.splits)

lemma Print_printable:
  "Print env n tab \<noteq> None \<longrightarrow> printable env n"
  "SQLNodeList_Print env l tab \<noteq> None \<longrightarrow> printable_seq env l"
  "Print_cells env ps tab \<noteq> None \<longrightarrow> printable_cells env ps"
proof (induction env n tab and env l tab and env ps tab rule: Print_SQLNodeList_Print_Print_cells.induct)
  case (1 env b distinct_opt limit select_list tableref_list wh grp hav ord window_list orgTab)
  show ?case
  proof
    assume p: "Print env (SelectStmt b distinct_opt limit select_list tableref_list wh grp hav ord window_list) orgTab \<noteq> None"
    then have q: "\<not> (case select_list of None \<Rightarrow> False | Some l \<Rightarrow> SQLNodeList_Print env l (orgTab @ TAB @ TAB) = None)"
      "\<not> (case tableref_list of None \<Rightarrow> False | Some l \<Rightarrow> SQLNodeList_Print env l (orgTab @ TAB @ TAB) = None)"
      "\<not> (case wh of None \<Rightarrow> False | Some n \<Rightarrow> Print env n (orgTab @ TAB) = None)"
      "\<not> (case grp of None \<Rightarrow> False | Some n \<Rightarrow> Print env n (orgTab @ TAB) = None)"
      "\<not> (case hav of None \<Rightarrow> False | Some n \<Rightarrow> Print env n SPACE_ST = None)"
      "\<not> (case ord of None \<Rightarrow> False | Some n \<Rightarrow> Print env n SPACE_ST = None)"
      "\<not> (case window_list of None \<Rightarrow> False | Some l \<Rightarrow> SQLNodeList_Print env l (orgTab @ TAB @ TAB) = None)"
      "\<not> (case limit of None \<Rightarrow> False | Some n \<Rightarrow> Print env n (orgTab @ TAB) = None)"
      by (simp_all add: Let_def cat_None_iff cat_None_iff2 case_opt_None1 case_opt_None2 None_eq_iff
          del: cat.simps cong: option.case_cong)
    have c1: "case select_list of None \<Rightarrow> True | Some l \<Rightarrow> printable_seq env l"
      using q(1) 1(1) by (cases select_list) auto
    have c2: "case tableref_list of None \<Rightarrow> True | Some l \<Rightarrow> printable_seq env l"
      using q(2) 1(2) by (cases tableref_list) auto
    have c3: "case wh of None \<Rightarrow> True | Some n \<Rightarrow> printable env n"
      using q(3) 1(3) by (cases wh) auto
    have c4: "case grp of None \<Rightarrow> True | Some n \<Rightarrow> printable env n"
      using q(4) 1(4) by (cases grp) auto
    have c5: "case hav of None \<Rightarrow> True | Some n \<Rightarrow> printable env n"
      using q(5) 1(5) by (cases hav) auto
    have c6: "case ord of None \<Rightarrow> True | Some n \<Rightarrow> printable env n"
      using q(6) 1(6) by (cases ord) auto
    have c7: "case window_list of None \<Rightarrow> True | Some l \<Rightarrow> printable_seq env l"
      using q(7) 1(7) by (cases window_list) auto
    have c8: "case limit of None \<Rightarrow> True | Some n \<Rightarrow> printable env n"
      using q(8) 1(8) by (cases limit) auto
    from c1 c2 c3 c4 c5 c6 c7 c8
    show "printable env (SelectStmt b distinct_opt limit select_list tableref_list wh grp hav ord window_list)"
      by simp
  qed
qed (auto simp: Let_def cat_None_iff cat_None_iff2 cat_ex_Some None_eq_iff simp del: cat.simps
    split: option.splits SQLNodeSeq.splits if_splits)

lemma Print_returns: "(\<exists>out. Print env n tab = Some out) \<longleftrightarrow> printable env n"
  using printable_Print(1) [of env n tab] Print_printable(1) [of env n tab]
  by auto

lemma Print_top_returns: "(\<exists>out. Print_top env n = Some out) \<longleftrightarrow> printable env n"
  unfolding Print_top_def by (rule Print_returns)

subsection \<open>The first thing printed\<close>

lemma Print_kind_then_newline:
  "Print env n tab = Some out \<Longrightarrow>
     \<exists>r. out = tab @ SPACE_ED @ NameOf env (GetType n) @ r \<and> (r = [] \<or> prefix NL r)"
  by (cases n)
    (auto simp: Let_def GetType_def SQLNode_Print_def cat_eq_Some_Cons simp del: cat.simps)

lemma first_token_plus:
  assumes r: "r = [] \<or> prefix NL r"
  shows "first_token (SPACE_ST @ name @ r) \<noteq> name"
    and "(\<forall>c \<in> set name. \<not> is_space c) \<Longrightarrow> first_token (SPACE_ST @ name @ r) = SPACE_ST @ name"
proof -
  let ?P = "\<lambda>c. \<not> is_space c"
  have ft: "first_token (SPACE_ST @ name @ r) = CHR ''+'' # takeWhile ?P (name @ r)"
    by (simp add: first_token_def SPACE_ST_def is_space_def)
  from r have tr: "takeWhile ?P r = []"
    by (auto simp: NL_def is_space_def prefix_def)
  show 2: "first_token (SPACE_ST @ name @ r) = SPACE_ST @ name" if "\<forall>c \<in> set name. \<not> is_space c"
    using that ft tr by (simp add: takeWhile_append2 SPACE_ST_def)
  show "first_token (SPACE_ST @ name @ r) \<noteq> name"
  proof (cases "\<forall>c \<in> set name. \<not> is_space c")
    case True
    with 2 show ?thesis by (simp add: SPACE_ST_def)
  next
    case False
    then obtain c where c: "c \<in> set name" "is_space c" by blast
    show ?thesis
    proof
      assume "first_token (SPACE_ST @ name @ r) = name"
      with ft have "name = CHR ''+'' # takeWhile ?P (name @ r)" by simp
      with c(1) have "c = CHR ''+'' \<or> c \<in> set (takeWhile ?P (name @ r))"
        by (metis set_ConsD)
      with c(2) show False by (auto simp: is_space_def dest: set_takeWhileD)
    qed
  qed
qed

text \<open>
  Claim C3, as stated: the first token of the print of a node is the name of its kind.
  It fails for a limit node: the print is \<^verbatim>\<open>+kLimit\<close>, one token, and the name of the
  kind is \<^verbatim>\<open>kLimit\<close>.
\<close>

theorem first_token_is_not_kind_name:
  "map_option first_token (Print_top example_env (new_LimitNode 10)) \<noteq>
   Some (NameOf example_env (GetType (new_LimitNode 10)))"
  by (simp add: new_LimitNode_def SQLNode_init_def GetType_def first_token_def is_space_def
      Print_top_def SQLNode_Print_def Let_def SPACE_ST_def SPACE_ED_def NL_def
      TAB_def example_env_def)

text \<open>
  Claim C3, amended: the print with no indentation argument returns exactly on the
  printable nodes. Whenever it returns, its output is \<^verbatim>\<open>SPACE_ST\<close>, the character
  \<^verbatim>\<open>+\<close>, followed at once by the name of the node's kind, and the name is followed by
  a newline or by the end of the output. So the first token of the output is never the
  name itself, and it is \<^verbatim>\<open>+\<close> joined to the name whenever the name holds no blank,
  tab or newline.
\<close>

theorem Print_top_begins_with_kind:
  "((\<exists>out. Print_top env n = Some out) \<longleftrightarrow> printable env n) \<and>
   (\<forall>out. Print_top env n = Some out \<longrightarrow>
      (\<exists>r. out = SPACE_ST @ NameOf env (GetType n) @ r \<and> (r = [] \<or> prefix NL r)) \<and>
      first_token out \<noteq> NameOf env (GetType n) \<and>
      ((\<forall>c \<in> set (NameOf env (GetType n)). \<not> is_space c) \<longrightarrow>
         first_token out = SPACE_ST @ NameOf env (GetType n)))"
proof (intro conjI allI impI)
  show "(\<exists>out. Print_top env n = Some out) \<longleftrightarrow> printable env n"
    by (rule Print_top_returns)
next
  fix out
  assume "Print_top env n = Some out"
  then have "Print env n SPACE_ST = Some out" by (simp add: Print_top_def)
  from Print_kind_then_newline [OF this] obtain r where
    out: "out = SPACE_ST @ NameOf env (GetType n) @ r" and r: "r = [] \<or> prefix NL r"
    by (auto simp: SPACE_ED_def)
  from out r show "\<exists>r. out = SPACE_ST @ NameOf env (GetType n) @ r \<and> (r = [] \<or> prefix NL r)"
    by blast
  from out first_token_plus(1) [OF r] show "first_token out \<noteq> NameOf env (GetType n)"
    by simp
  assume "\<forall>c \<in> set (NameOf env (GetType n)). \<not> is_space c"
  with out first_token_plus(2) [OF r] show "first_token out = SPACE_ST @ NameOf env (GetType n)"
    by simp
qed

theorem Print_top_begins_with_kind_witness:
  "printable example_env (new_LimitNode 10) \<and>
   Print_top example_env (new_LimitNode 10) = Some ''+kLimit'' \<and>
   NameOf example_env (GetType (new_LimitNode 10)) = ''kLimit'' \<and>
   first_token ''+kLimit'' = ''+kLimit'' \<and>
   printable example_env (ConstNode_int 3) \<and>
   Print_top example_env (ConstNode_int 3) = Some (''+kInt'' @ NL @ ''+'' @ TAB @ ''value: 3'') \<and>
   NameOf example_env (GetType (ConstNode_int 3)) = ''kInt'' \<and>
   first_token (''+kInt'' @ NL @ ''+'' @ TAB @ ''value: 3'') = ''+kInt''"
proof -
  have p: "Print_top example_env (new_LimitNode 10) = Some ''+kLimit''"
    by (simp add: new_LimitNode_def SQLNode_init_def Print_top_def SQLNode_Print_def
        SPACE_ST_def SPACE_ED_def example_env_def)
  have q: "Print_top example_env (ConstNode_int 3) = Some (''+kInt'' @ NL @ ''+'' @ TAB @ ''value: 3'')"
    by (simp add: ConstNode_int_def SQLNode_init_def Print_top_def SQLNode_Print_def Let_def
        SPACE_ST_def SPACE_ED_def example_env_def show_int_3)
  have n1: "NameOf example_env (GetType (new_LimitNode 10)) = ''kLimit''"
    by (simp add: new_LimitNode_def SQLNode_init_def GetType_def example_env_def)
  have n2: "NameOf example_env (GetType (ConstNode_int 3)) = ''kInt''"
    by (simp add: ConstNode_int_def SQLNode_init_def GetType_def example_env_def)
  have s1: "\<forall>c \<in> set ''kLimit''. \<not> is_space c" by (simp add: is_space_def)
  have s2: "\<forall>c \<in> set ''kInt''. \<not> is_space c" by (simp add: is_space_def)
  from Print_top_begins_with_kind [of example_env "new_LimitNode 10"] p n1 s1
  have a: "printable example_env (new_LimitNode 10)" "first_token ''+kLimit'' = ''+kLimit''"
    by (auto simp: SPACE_ST_def)
  from Print_top_begins_with_kind [of example_env "ConstNode_int 3"] q n2 s2
  have b: "printable example_env (ConstNode_int 3)"
    "first_token (''+kInt'' @ NL @ ''+'' @ TAB @ ''value: 3'') = ''+kInt''"
    by (auto simp: SPACE_ST_def)
  from p q n1 n2 a b show ?thesis by simp
qed

subsection \<open>Select statements\<close>

lemma select_example_Print_text:
  "Option.bind (select_example cnt) (Print_top env) =
     Some (SPACE_ST @ NameOf env kSelectStmt @ NL @
           SPACE_ST @ TAB @ ''select_list: '' @ NL @
           SPACE_ST @ TAB @ TAB @ ''[]'' @ NL @
           SPACE_ST @ TAB @ ''tableref_list_ptr_: NULL'' @ NL @
           SPACE_ST @ TAB @ ''where_clause_: NULL'' @ NL @
           SPACE_ST @ TAB @ ''group_clause_: NULL'' @ NL @
           SPACE_ST @ TAB @ ''having_clause_: NULL'' @ NL @
           SPACE_ST @ TAB @ ''order_clause_: NULL'' @ NL @
           SPACE_ST @ TAB @ ''window_list_ptr_: NULL'' @ NL @
           SPACE_ST @ TAB @ ''limit_clause_: '' @ NL @
           SPACE_ST @ TAB @ NameOf env kLimit @ NL)"
  by (simp add: select_example_def new_SelectStmt_def new_LimitNode_def empty_SQLNodeSeq_def
      SQLNode_init_def Print_top_def SQLNode_Print_def Let_def SPACE_ED_def)

lemma select_text_no_10: "\<not> sublist ''10'' select_text"
  by code_simp

text \<open>
  Claim C4, as stated: the print of a select statement with an empty target list and a
  limit of 10 shows the target list as \<^verbatim>\<open>[]\<close> and the limit clause as a node that
  contains the value 10. It fails: the digits 10 stand nowhere in the output.
\<close>

theorem limit_count_is_not_printed:
  "\<not> (case Option.bind (select_example 10) (Print_top example_env) of
        None \<Rightarrow> False
      | Some out \<Rightarrow> sublist ''[]'' out \<and> sublist ''10'' out)"
proof -
  have "Option.bind (select_example 10) (Print_top example_env) = Some select_text"
    by (simp add: select_example_Print_text select_text_def Print_top_def SQLNode_Print_def Let_def SPACE_ST_def SPACE_ED_def NL_def
        TAB_def example_env_def)
  with select_text_no_10 show ?thesis by simp
qed

text \<open>
  Claim C4, amended: the print of a select statement with an empty target list and a
  limit node of any count shows the target list as \<^verbatim>\<open>[]\<close> and the limit clause as
  the name of the kind of the limit node and nothing else (\<^verbatim>\<open>LimitNode\<close> does not
  override \<^verbatim>\<open>Print\<close>); the count is not printed.
\<close>

theorem select_example_Print:
  "Option.bind (select_example cnt) (Print_top env) =
     Some (SPACE_ST @ NameOf env kSelectStmt @ NL @
           SPACE_ST @ TAB @ ''select_list: '' @ NL @
           SPACE_ST @ TAB @ TAB @ ''[]'' @ NL @
           SPACE_ST @ TAB @ ''tableref_list_ptr_: NULL'' @ NL @
           clauses_NULL (SPACE_ST @ TAB) @
           SPACE_ST @ TAB @ ''window_list_ptr_: NULL'' @ NL @
           SPACE_ST @ TAB @ ''limit_clause_: '' @ NL @
           SPACE_ST @ TAB @ NameOf env kLimit @ NL)"
  by (simp add: select_example_Print_text clauses_NULL_def)

lemma fill_all_keeps_clauses:
  "\<exists>limit' sl' tr' wl'.
     fill_all (SelectStmt b d limit sl tr None None None None wl) args =
       Some (SelectStmt b d limit' sl' tr' None None None None wl')"
proof (induction args arbitrary: limit sl tr wl)
  case Nil
  show ?case by simp
next
  case (Cons x args)
  obtain sl1 tr1 wl1 lim1 where x: "x = (sl1, tr1, wl1, lim1)" by (cases x) auto
  from Cons [of lim1 sl1 tr1 wl1] x show ?case by simp
qed

lemma SelectStmt_Print_clauses:
  assumes "Print env (SelectStmt b d limit sl tr None None None None wl) tab = Some out"
  shows "sublist (clauses_NULL (tab @ TAB)) out"
proof -
  from assms obtain s1 s2 s3 s4 where
    "out = SQLNode_Print env b tab @ NL @ s1 @ s2 @ clauses_NULL (tab @ TAB) @ s3 @ s4"
    by (auto simp: Let_def cat_eq_Some_Cons clauses_NULL_def simp del: cat.simps)
  then have "out = (SQLNode_Print env b tab @ NL @ s1 @ s2) @ clauses_NULL (tab @ TAB) @ (s3 @ s4)"
    by simp
  then show ?thesis by (rule sublistI)
qed

text \<open>
  The print of a select statement without the four clauses fails only where the print
  of a list or of the limit node it holds fails.
\<close>

lemma SelectStmt_Print_returns:
  "(\<exists>out. Print env (SelectStmt b d limit sl tr None None None None wl) tab = Some out) \<longleftrightarrow>
     (case sl of None \<Rightarrow> True | Some l \<Rightarrow> \<exists>t. SQLNodeList_Print env l (tab @ TAB @ TAB) = Some t) \<and>
     (case tr of None \<Rightarrow> True | Some l \<Rightarrow> \<exists>t. SQLNodeList_Print env l (tab @ TAB @ TAB) = Some t) \<and>
     (case wl of None \<Rightarrow> True | Some l \<Rightarrow> \<exists>t. SQLNodeList_Print env l (tab @ TAB @ TAB) = Some t) \<and>
     (case limit of None \<Rightarrow> True | Some n \<Rightarrow> \<exists>t. Print env n (tab @ TAB) = Some t)"
proof -
  have "Print env (SelectStmt b d limit sl tr None None None None wl) tab = None \<longleftrightarrow>
     (case sl of None \<Rightarrow> False | Some l \<Rightarrow> SQLNodeList_Print env l (tab @ TAB @ TAB) = None) \<or>
     (case tr of None \<Rightarrow> False | Some l \<Rightarrow> SQLNodeList_Print env l (tab @ TAB @ TAB) = None) \<or>
     (case wl of None \<Rightarrow> False | Some l \<Rightarrow> SQLNodeList_Print env l (tab @ TAB @ TAB) = None) \<or>
     (case limit of None \<Rightarrow> False | Some n \<Rightarrow> Print env n (tab @ TAB) = None)"
    by (simp add: Let_def cat_None_iff cat_None_iff2 case_opt_None1 case_opt_None2 None_eq_iff
          del: cat.simps cong: option.case_cong)
  then show ?thesis
    by (cases sl; cases tr; cases wl; cases limit) auto
qed

text \<open>
  Claim C9. A select statement built by the constructor and any calls of
  \<^verbatim>\<open>FillSelectAttributions\<close> has no where, group, having and order clause. Its print
  returns exactly when the prints of the three lists and of the limit node it holds
  return, which is when the statement is printable, and whenever it returns, the output holds the four lines that say \<^verbatim>\<open>NULL\<close>
  for the four clauses. The print of a select statement fresh from the constructor
  always returns; it is given in full.
\<close>

theorem constructed_SelectStmt_clauses_NULL:
  "(\<exists>b d limit sl tr wl.
      fill_all new_SelectStmt args = Some (SelectStmt b d limit sl tr None None None None wl) \<and>
      (\<forall>tab.
         ((\<exists>out. Print env (SelectStmt b d limit sl tr None None None None wl) tab = Some out) \<longleftrightarrow>
            (case sl of None \<Rightarrow> True
             | Some l \<Rightarrow> \<exists>t. SQLNodeList_Print env l (tab @ TAB @ TAB) = Some t) \<and>
            (case tr of None \<Rightarrow> True
             | Some l \<Rightarrow> \<exists>t. SQLNodeList_Print env l (tab @ TAB @ TAB) = Some t) \<and>
            (case wl of None \<Rightarrow> True
             | Some l \<Rightarrow> \<exists>t. SQLNodeList_Print env l (tab @ TAB @ TAB) = Some t) \<and>
            (case limit of None \<Rightarrow> True | Some n \<Rightarrow> \<exists>t. Print env n (tab @ TAB) = Some t))) \<and>
      (\<forall>tab.
         (\<exists>out. Print env (SelectStmt b d limit sl tr None None None None wl) tab = Some out) \<longleftrightarrow>
           printable env (SelectStmt b d limit sl tr None None None None wl)) \<and>
      (\<forall>tab out. Print env (SelectStmt b d limit sl tr None None None None wl) tab = Some out \<longrightarrow>
         sublist (clauses_NULL (tab @ TAB)) out)) \<and>
   Print env new_SelectStmt tab0 =
     Some (tab0 @ NameOf env kSelectStmt @ NL @
           tab0 @ TAB @ ''select_list_ptr_: NULL'' @ NL @
           tab0 @ TAB @ ''tableref_list_ptr_: NULL'' @ NL @
           clauses_NULL (tab0 @ TAB) @
           tab0 @ TAB @ ''window_list_ptr_: NULL'' @ NL @
           tab0 @ TAB @ ''limit_clause_: NULL'' @ NL)"
proof (rule conjI)
  from fill_all_keeps_clauses [of "SQLNode_init kSelectStmt 0 0" 0 None None None None args]
  obtain limit sl tr wl where
    f: "fill_all new_SelectStmt args =
       Some (SelectStmt (SQLNode_init kSelectStmt 0 0) 0 limit sl tr None None None None wl)"
    by (auto simp: new_SelectStmt_def)
  have r: "\<forall>tab.
         ((\<exists>out. Print env (SelectStmt (SQLNode_init kSelectStmt 0 0) 0 limit sl tr
                    None None None None wl) tab = Some out) \<longleftrightarrow>
            (case sl of None \<Rightarrow> True
             | Some l \<Rightarrow> \<exists>t. SQLNodeList_Print env l (tab @ TAB @ TAB) = Some t) \<and>
            (case tr of None \<Rightarrow> True
             | Some l \<Rightarrow> \<exists>t. SQLNodeList_Print env l (tab @ TAB @ TAB) = Some t) \<and>
            (case wl of None \<Rightarrow> True
             | Some l \<Rightarrow> \<exists>t. SQLNodeList_Print env l (tab @ TAB @ TAB) = Some t) \<and>
            (case limit of None \<Rightarrow> True | Some n \<Rightarrow> \<exists>t. Print env n (tab @ TAB) = Some t))"
    by (intro allI) (rule SelectStmt_Print_returns)
  have q: "\<forall>tab.
         (\<exists>out. Print env (SelectStmt (SQLNode_init kSelectStmt 0 0) 0 limit sl tr
                    None None None None wl) tab = Some out) \<longleftrightarrow>
           printable env (SelectStmt (SQLNode_init kSelectStmt 0 0) 0 limit sl tr
                    None None None None wl)"
    by (intro allI) (rule Print_returns)
  have c: "\<forall>tab out. Print env (SelectStmt (SQLNode_init kSelectStmt 0 0) 0 limit sl tr
                    None None None None wl) tab = Some out \<longrightarrow>
         sublist (clauses_NULL (tab @ TAB)) out"
    by (blast intro: SelectStmt_Print_clauses)
  show "\<exists>b d limit sl tr wl.
      fill_all new_SelectStmt args = Some (SelectStmt b d limit sl tr None None None None wl) \<and>
      (\<forall>tab.
         ((\<exists>out. Print env (SelectStmt b d limit sl tr None None None None wl) tab = Some out) \<longleftrightarrow>
            (case sl of None \<Rightarrow> True
             | Some l \<Rightarrow> \<exists>t. SQLNodeList_Print env l (tab @ TAB @ TAB) = Some t) \<and>
            (case tr of None \<Rightarrow> True
             | Some l \<Rightarrow> \<exists>t. SQLNodeList_Print env l (tab @ TAB @ TAB) = Some t) \<and>
            (case wl of None \<Rightarrow> True
             | Some l \<Rightarrow> \<exists>t. SQLNodeList_Print env l (tab @ TAB @ TAB) = Some t) \<and>
            (case limit of None \<Rightarrow> True | Some n \<Rightarrow> \<exists>t. Print env n (tab @ TAB) = Some t))) \<and>
      (\<forall>tab.
         (\<exists>out. Print env (SelectStmt b d limit sl tr None None None None wl) tab = Some out) \<longleftrightarrow>
           printable env (SelectStmt b d limit sl tr None None None None wl)) \<and>
      (\<forall>tab out. Print env (SelectStmt b d limit sl tr None None None None wl) tab = Some out \<longrightarrow>
         sublist (clauses_NULL (tab @ TAB)) out)"
    by (intro exI conjI) (rule f, rule r, rule q, rule c)
next
  show "Print env new_SelectStmt tab0 =
     Some (tab0 @ NameOf env kSelectStmt @ NL @
           tab0 @ TAB @ ''select_list_ptr_: NULL'' @ NL @
           tab0 @ TAB @ ''tableref_list_ptr_: NULL'' @ NL @
           clauses_NULL (tab0 @ TAB) @
           tab0 @ TAB @ ''window_list_ptr_: NULL'' @ NL @
           tab0 @ TAB @ ''limit_clause_: NULL'' @ NL)"
    by (simp add: new_SelectStmt_def SQLNode_init_def SQLNode_Print_def Let_def SPACE_ED_def
        clauses_NULL_def)
qed

theorem constructed_SelectStmt_clauses_NULL_witness:
  "(\<exists>s out. fill_all new_SelectStmt [] = Some s \<and> Print example_env s SPACE_ST = Some out \<and>
        sublist (clauses_NULL (SPACE_ST @ TAB)) out) \<and>
   (\<exists>s. fill_all new_SelectStmt select_args = Some s \<and>
        Print example_env s SPACE_ST = Some select_text) \<and>
   sublist (clauses_NULL (SPACE_ST @ TAB)) select_text"
proof -
  from constructed_SelectStmt_clauses_NULL [of "[]" example_env]
  obtain b d limit sl tr wl where
    s: "fill_all new_SelectStmt [] = Some (SelectStmt b d limit sl tr None None None None wl)"
    and ret: "\<forall>tab.
         ((\<exists>out. Print example_env (SelectStmt b d limit sl tr None None None None wl) tab = Some out) \<longleftrightarrow>
            (case sl of None \<Rightarrow> True
             | Some l \<Rightarrow> \<exists>t. SQLNodeList_Print example_env l (tab @ TAB @ TAB) = Some t) \<and>
            (case tr of None \<Rightarrow> True
             | Some l \<Rightarrow> \<exists>t. SQLNodeList_Print example_env l (tab @ TAB @ TAB) = Some t) \<and>
            (case wl of None \<Rightarrow> True
             | Some l \<Rightarrow> \<exists>t. SQLNodeList_Print example_env l (tab @ TAB @ TAB) = Some t) \<and>
            (case limit of None \<Rightarrow> True | Some n \<Rightarrow> \<exists>t. Print example_env n (tab @ TAB) = Some t))"
    and imp: "\<forall>tab out.
        Print example_env (SelectStmt b d limit sl tr None None None None wl) tab = Some out \<longrightarrow>
        sublist (clauses_NULL (tab @ TAB)) out"
    by blast
  from s have "limit = None" "sl = None" "tr = None" "wl = None"
    by (simp_all add: new_SelectStmt_def)
  with ret obtain out where
    o: "Print example_env (SelectStmt b d limit sl tr None None None None wl) SPACE_ST = Some out"
    by auto
  with imp have "sublist (clauses_NULL (SPACE_ST @ TAB)) out" by blast
  with s o have fresh: "\<exists>s out. fill_all new_SelectStmt [] = Some s \<and>
      Print example_env s SPACE_ST = Some out \<and> sublist (clauses_NULL (SPACE_ST @ TAB)) out"
    by blast
  from constructed_SelectStmt_clauses_NULL [of select_args example_env]
  obtain b d limit sl tr wl where
    s: "fill_all new_SelectStmt select_args =
          Some (SelectStmt b d limit sl tr None None None None wl)"
    and imp: "\<forall>tab out.
        Print example_env (SelectStmt b d limit sl tr None None None None wl) tab = Some out \<longrightarrow>
        sublist (clauses_NULL (tab @ TAB)) out"
    by blast
  from s have eq: "SelectStmt b d limit sl tr None None None None wl =
      SelectStmt (SQLNode_init kSelectStmt 0 0) 0 (Some (new_LimitNode 10))
        (Some empty_SQLNodeSeq) None None None None None None"
    by (simp add: select_args_def new_SelectStmt_def)
  have p: "Print example_env (SelectStmt b d limit sl tr None None None None wl) SPACE_ST =
             Some select_text"
    unfolding eq
    by (simp add: select_text_def new_LimitNode_def empty_SQLNodeSeq_def SQLNode_init_def
        Print_top_def SQLNode_Print_def Let_def SPACE_ST_def SPACE_ED_def NL_def
        TAB_def example_env_def)
  from imp p have "sublist (clauses_NULL (SPACE_ST @ TAB)) select_text" by blast
  with s p fresh show ?thesis by blast
qed

subsection \<open>Frames\<close>

lemma FrameNode_Print_parts:
  assumes "Print env (FrameNode b frame_type start fin) tab = Some out"
  shows "\<exists>s e. out = SQLNode_Print env b tab @ NL @
                  (tab @ TAB @ ''frames_type_ : '' @ NameOf env frame_type @ NL) @ s @ e \<and>
           (case start of
              None \<Rightarrow> s = tab @ TAB @ ''start: UNBOUNDED: '' @ NL
            | Some n \<Rightarrow> \<exists>t. Print env n (tab @ TAB @ TAB) = Some t \<and>
                             s = tab @ TAB @ ''start: '' @ NL @ t @ NL) \<and>
           (case fin of
              None \<Rightarrow> e = tab @ TAB @ ''end: UNBOUNDED''
            | Some n \<Rightarrow> \<exists>t. Print env n (tab @ TAB @ TAB) = Some t \<and>
                             e = tab @ TAB @ ''end: '' @ NL @ t)"
  using assms
  by (auto simp: Let_def cat_eq_Some_Cons simp del: cat.simps(2) split: option.splits)

lemma FrameBound_Print_parts:
  assumes "Print env (FrameBound b bound_type offset) tab = Some out"
  shows "\<exists>u. out = SQLNode_Print env b tab @ NL @
                  (tab @ TAB @ ''bound: '' @ NameOf env bound_type @ NL) @ u \<and>
           (case offset of
              None \<Rightarrow> u = tab @ TAB @ TAB @ ''UNBOUNDED''
            | Some n \<Rightarrow> Print env n (tab @ TAB @ TAB) = Some u)"
  using assms
  by (auto simp: Let_def cat_eq_Some_Cons simp del: cat.simps(2) split: option.splits)

text \<open>
  The print of a frame fails only where the print of a bound it holds fails, and the
  print of a bound only where the print of its offset fails.
\<close>

lemma FrameNode_Print_None:
  "Print env (FrameNode b frame_type start fin) tab = None \<longleftrightarrow>
     (case start of None \<Rightarrow> False | Some n \<Rightarrow> Print env n (tab @ TAB @ TAB) = None) \<or>
     (case fin of None \<Rightarrow> False | Some n \<Rightarrow> Print env n (tab @ TAB @ TAB) = None)"
  by (auto simp: Let_def cat_None_iff cat_None_iff2 simp del: cat.simps split: option.splits)

lemma FrameBound_Print_None:
  "Print env (FrameBound b bound_type offset) tab = None \<longleftrightarrow>
     (case offset of None \<Rightarrow> False | Some n \<Rightarrow> Print env n (tab @ TAB @ TAB) = None)"
  by (auto simp: Let_def cat_None_iff cat_None_iff2 simp del: cat.simps split: option.splits)

lemma ConstNode_int_Print:
  "Print env (ConstNode_int v) tab =
     Some (tab @ NameOf env kInt @ NL @ tab @ TAB @ ''value: '' @ show_int (sint v))"
  by (simp add: ConstNode_int_def SQLNode_init_def SQLNode_Print_def Let_def SPACE_ED_def)

lemma frame_example_Print: "Print_top example_env frame_example = Some frame_example_text"
  by (simp add: frame_example_def frame_example_text_def new_FrameNode_def new_FrameBound_def
      ConstNode_int_def SQLNode_init_def show_int_3
      Print_top_def SQLNode_Print_def Let_def SPACE_ST_def SPACE_ED_def NL_def
      TAB_def example_env_def)

text \<open>
  Claim C6. The print of a frame returns exactly on the printable frames, that is,
  exactly when the prints of the bounds it holds return, and the print of a bound
  exactly when the print of the offset it holds returns. A frame without bounds and a bound without offset always print, with
  \<^verbatim>\<open>UNBOUNDED\<close> in the place of what is absent. Whenever the print of a frame returns,
  the output names the frame type; for an absent start bound it holds
  \<^verbatim>\<open>start: UNBOUNDED\<close> and for an absent end bound it ends with \<^verbatim>\<open>end: UNBOUNDED\<close>; a
  bound that is present is printed in full under \<^verbatim>\<open>start:\<close> or \<^verbatim>\<open>end:\<close>. The print
  of a bound names the kind of the bound and ends with the print of its offset, or with
  \<^verbatim>\<open>UNBOUNDED\<close> when it has none; the print of an integer offset ends with its value
  in decimal.
\<close>

theorem FrameNode_Print_bounds:
  "((\<exists>out. Print env (FrameNode b frame_type start fin) tab = Some out) \<longleftrightarrow>
      printable env (FrameNode b frame_type start fin)) \<and>
   ((\<exists>out. Print env (FrameNode b frame_type start fin) tab = Some out) \<longleftrightarrow>
      (case start of None \<Rightarrow> True | Some n \<Rightarrow> \<exists>t. Print env n (tab @ TAB @ TAB) = Some t) \<and>
      (case fin of None \<Rightarrow> True | Some n \<Rightarrow> \<exists>t. Print env n (tab @ TAB @ TAB) = Some t)) \<and>
   ((\<exists>out. Print env (FrameBound b' bound_type offset) tab' = Some out) \<longleftrightarrow>
      (case offset of None \<Rightarrow> True | Some n \<Rightarrow> \<exists>u. Print env n (tab' @ TAB @ TAB) = Some u)) \<and>
   Print env (FrameNode b frame_type None None) tab =
     Some (tab @ NameOf env (type_m b) @ NL @
           tab @ TAB @ ''frames_type_ : '' @ NameOf env frame_type @ NL @
           tab @ TAB @ ''start: UNBOUNDED: '' @ NL @
           tab @ TAB @ ''end: UNBOUNDED'') \<and>
   Print env (FrameBound b' bound_type None) tab' =
     Some (tab' @ NameOf env (type_m b') @ NL @
           tab' @ TAB @ ''bound: '' @ NameOf env bound_type @ NL @
           tab' @ TAB @ TAB @ ''UNBOUNDED'') \<and>
   (Print env (FrameNode b frame_type start fin) tab = Some out \<longrightarrow>
      sublist (tab @ TAB @ ''frames_type_ : '' @ NameOf env frame_type @ NL) out \<and>
      (case start of
         None \<Rightarrow> sublist (tab @ TAB @ ''start: UNBOUNDED'') out
       | Some n \<Rightarrow> \<exists>t. Print env n (tab @ TAB @ TAB) = Some t \<and>
                        sublist (tab @ TAB @ ''start: '' @ NL @ t @ NL) out) \<and>
      (case fin of
         None \<Rightarrow> suffix (tab @ TAB @ ''end: UNBOUNDED'') out
       | Some n \<Rightarrow> \<exists>t. Print env n (tab @ TAB @ TAB) = Some t \<and>
                        suffix (tab @ TAB @ ''end: '' @ NL @ t) out)) \<and>
   (Print env (FrameBound b' bound_type offset) tab' = Some out' \<longrightarrow>
      sublist (tab' @ TAB @ ''bound: '' @ NameOf env bound_type @ NL) out' \<and>
      (case offset of
         None \<Rightarrow> suffix (tab' @ TAB @ TAB @ ''UNBOUNDED'') out'
       | Some n \<Rightarrow> \<exists>u. Print env n (tab' @ TAB @ TAB) = Some u \<and> suffix u out')) \<and>
   Print env (ConstNode_int v) tab'' =
     Some (tab'' @ NameOf env kInt @ NL @ tab'' @ TAB @ ''value: '' @ show_int (sint v))"
proof (intro conjI impI)
  show "(\<exists>out. Print env (FrameNode b frame_type start fin) tab = Some out) \<longleftrightarrow>
      printable env (FrameNode b frame_type start fin)"
    by (rule Print_returns)
  show "(\<exists>out. Print env (FrameNode b frame_type start fin) tab = Some out) \<longleftrightarrow>
      (case start of None \<Rightarrow> True | Some n \<Rightarrow> \<exists>t. Print env n (tab @ TAB @ TAB) = Some t) \<and>
      (case fin of None \<Rightarrow> True | Some n \<Rightarrow> \<exists>t. Print env n (tab @ TAB @ TAB) = Some t)"
    using FrameNode_Print_None [of env b frame_type start fin tab]
    by (auto split: option.splits)
  show "(\<exists>out. Print env (FrameBound b' bound_type offset) tab' = Some out) \<longleftrightarrow>
      (case offset of None \<Rightarrow> True | Some n \<Rightarrow> \<exists>u. Print env n (tab' @ TAB @ TAB) = Some u)"
    using FrameBound_Print_None [of env b' bound_type offset tab']
    by (auto split: option.splits)
  show "Print env (FrameNode b frame_type None None) tab =
     Some (tab @ NameOf env (type_m b) @ NL @
           tab @ TAB @ ''frames_type_ : '' @ NameOf env frame_type @ NL @
           tab @ TAB @ ''start: UNBOUNDED: '' @ NL @
           tab @ TAB @ ''end: UNBOUNDED'')"
    by (simp add: SQLNode_Print_def Let_def SPACE_ED_def)
  show "Print env (FrameBound b' bound_type None) tab' =
     Some (tab' @ NameOf env (type_m b') @ NL @
           tab' @ TAB @ ''bound: '' @ NameOf env bound_type @ NL @
           tab' @ TAB @ TAB @ ''UNBOUNDED'')"
    by (simp add: SQLNode_Print_def Let_def SPACE_ED_def)
next
  assume p: "Print env (FrameNode b frame_type start fin) tab = Some out"
  from FrameNode_Print_parts [OF p] obtain s e where
    out: "out = SQLNode_Print env b tab @ NL @
            (tab @ TAB @ ''frames_type_ : '' @ NameOf env frame_type @ NL) @ s @ e"
    and s: "case start of
              None \<Rightarrow> s = tab @ TAB @ ''start: UNBOUNDED: '' @ NL
            | Some n \<Rightarrow> \<exists>t. Print env n (tab @ TAB @ TAB) = Some t \<and>
                             s = tab @ TAB @ ''start: '' @ NL @ t @ NL"
    and e: "case fin of
              None \<Rightarrow> e = tab @ TAB @ ''end: UNBOUNDED''
            | Some n \<Rightarrow> \<exists>t. Print env n (tab @ TAB @ TAB) = Some t \<and>
                             e = tab @ TAB @ ''end: '' @ NL @ t"
    by blast
  from out have "out = (SQLNode_Print env b tab @ NL) @
      (tab @ TAB @ ''frames_type_ : '' @ NameOf env frame_type @ NL) @ (s @ e)" by simp
  then show "sublist (tab @ TAB @ ''frames_type_ : '' @ NameOf env frame_type @ NL) out"
    by (rule sublistI)
  from out have outs: "out = (SQLNode_Print env b tab @ NL @
      (tab @ TAB @ ''frames_type_ : '' @ NameOf env frame_type @ NL)) @ s @ e" by simp
  show "case start of
         None \<Rightarrow> sublist (tab @ TAB @ ''start: UNBOUNDED'') out
       | Some n \<Rightarrow> \<exists>t. Print env n (tab @ TAB @ TAB) = Some t \<and>
                        sublist (tab @ TAB @ ''start: '' @ NL @ t @ NL) out"
  proof (cases start)
    case None
    with s have "s = (tab @ TAB @ ''start: UNBOUNDED'') @ ('': '' @ NL)" by simp
    with outs have "out = (SQLNode_Print env b tab @ NL @
      (tab @ TAB @ ''frames_type_ : '' @ NameOf env frame_type @ NL)) @
      (tab @ TAB @ ''start: UNBOUNDED'') @ (('': '' @ NL) @ e)" by simp
    then have "sublist (tab @ TAB @ ''start: UNBOUNDED'') out" by (rule sublistI)
    with None show ?thesis by simp
  next
    case (Some n)
    with s obtain t where t: "Print env n (tab @ TAB @ TAB) = Some t"
      and "s = tab @ TAB @ ''start: '' @ NL @ t @ NL" by auto
    with outs have "out = (SQLNode_Print env b tab @ NL @
      (tab @ TAB @ ''frames_type_ : '' @ NameOf env frame_type @ NL)) @
      (tab @ TAB @ ''start: '' @ NL @ t @ NL) @ e" by simp
    then have "sublist (tab @ TAB @ ''start: '' @ NL @ t @ NL) out" by (rule sublistI)
    with Some t show ?thesis by simp
  qed
  from out have oute: "out = (SQLNode_Print env b tab @ NL @
      (tab @ TAB @ ''frames_type_ : '' @ NameOf env frame_type @ NL) @ s) @ e" by simp
  show "case fin of
         None \<Rightarrow> suffix (tab @ TAB @ ''end: UNBOUNDED'') out
       | Some n \<Rightarrow> \<exists>t. Print env n (tab @ TAB @ TAB) = Some t \<and>
                        suffix (tab @ TAB @ ''end: '' @ NL @ t) out"
  proof (cases fin)
    case None
    with e have "e = tab @ TAB @ ''end: UNBOUNDED''" by simp
    with oute have "out = (SQLNode_Print env b tab @ NL @
      (tab @ TAB @ ''frames_type_ : '' @ NameOf env frame_type @ NL) @ s) @
      (tab @ TAB @ ''end: UNBOUNDED'')" by simp
    then have "suffix (tab @ TAB @ ''end: UNBOUNDED'') out" by (rule suffixI2)
    with None show ?thesis by simp
  next
    case (Some n)
    with e obtain t where t: "Print env n (tab @ TAB @ TAB) = Some t"
      and "e = tab @ TAB @ ''end: '' @ NL @ t" by auto
    with oute have "out = (SQLNode_Print env b tab @ NL @
      (tab @ TAB @ ''frames_type_ : '' @ NameOf env frame_type @ NL) @ s) @
      (tab @ TAB @ ''end: '' @ NL @ t)" by simp
    then have "suffix (tab @ TAB @ ''end: '' @ NL @ t) out" by (rule suffixI2)
    with Some t show ?thesis by simp
  qed
next
  assume p: "Print env (FrameBound b' bound_type offset) tab' = Some out'"
  from FrameBound_Print_parts [OF p] obtain u where
    out: "out' = SQLNode_Print env b' tab' @ NL @
            (tab' @ TAB @ ''bound: '' @ NameOf env bound_type @ NL) @ u"
    and u: "case offset of
              None \<Rightarrow> u = tab' @ TAB @ TAB @ ''UNBOUNDED''
            | Some n \<Rightarrow> Print env n (tab' @ TAB @ TAB) = Some u"
    by blast
  from out have "out' = (SQLNode_Print env b' tab' @ NL) @
      (tab' @ TAB @ ''bound: '' @ NameOf env bound_type @ NL) @ u" by simp
  then show "sublist (tab' @ TAB @ ''bound: '' @ NameOf env bound_type @ NL) out'"
    by (rule sublistI)
  from out have "out' = (SQLNode_Print env b' tab' @ NL @
      (tab' @ TAB @ ''bound: '' @ NameOf env bound_type @ NL)) @ u" by simp
  then have "suffix u out'" by (rule suffixI2)
  with u show "case offset of
         None \<Rightarrow> suffix (tab' @ TAB @ TAB @ ''UNBOUNDED'') out'
       | Some n \<Rightarrow> \<exists>u. Print env n (tab' @ TAB @ TAB) = Some u \<and> suffix u out'"
    by (auto split: option.splits)
next
  show "Print env (ConstNode_int v) tab'' =
     Some (tab'' @ NameOf env kInt @ NL @ tab'' @ TAB @ ''value: '' @ show_int (sint v))"
    by (rule ConstNode_int_Print)
qed

theorem FrameNode_Print_bounds_witness:
  "Print example_env frame_example SPACE_ST = Some frame_example_text \<and>
   sublist (SPACE_ST @ TAB @ ''frames_type_ : '' @ NameOf example_env kFrameRows @ NL)
     frame_example_text \<and>
   (\<exists>t. Print example_env (new_FrameBound kPreceding (Some (ConstNode_int 3)))
           (SPACE_ST @ TAB @ TAB) = Some t \<and>
        sublist (SPACE_ST @ TAB @ ''start: '' @ NL @ t @ NL) frame_example_text) \<and>
   (\<exists>t. Print example_env (new_FrameBound kCurrent None) (SPACE_ST @ TAB @ TAB) = Some t \<and>
        suffix (SPACE_ST @ TAB @ ''end: '' @ NL @ t) frame_example_text) \<and>
   (\<exists>out. Print example_env (new_FrameNode kFrameRange None None) SPACE_ST = Some out \<and>
        sublist (SPACE_ST @ TAB @ ''start: UNBOUNDED'') out \<and>
        suffix (SPACE_ST @ TAB @ ''end: UNBOUNDED'') out)"
proof -
  have p: "Print example_env
             (FrameNode (SQLNode_init kFrames 0 0) kFrameRows
                (Some (new_FrameBound kPreceding (Some (ConstNode_int 3))))
                (Some (new_FrameBound kCurrent None)))
             SPACE_ST = Some frame_example_text"
    using frame_example_Print by (simp add: Print_top_def frame_example_def new_FrameNode_def)
  from FrameNode_Print_bounds [where env = example_env and b = "SQLNode_init kFrames 0 0"
      and frame_type = kFrameRows
      and start = "Some (new_FrameBound kPreceding (Some (ConstNode_int 3)))"
      and fin = "Some (new_FrameBound kCurrent None)" and tab = SPACE_ST
      and out = frame_example_text] p
  have a: "sublist (SPACE_ST @ TAB @ ''frames_type_ : '' @ NameOf example_env kFrameRows @ NL)
     frame_example_text \<and>
   (\<exists>t. Print example_env (new_FrameBound kPreceding (Some (ConstNode_int 3)))
           (SPACE_ST @ TAB @ TAB) = Some t \<and>
        sublist (SPACE_ST @ TAB @ ''start: '' @ NL @ t @ NL) frame_example_text) \<and>
   (\<exists>t. Print example_env (new_FrameBound kCurrent None) (SPACE_ST @ TAB @ TAB) = Some t \<and>
        suffix (SPACE_ST @ TAB @ ''end: '' @ NL @ t) frame_example_text)"
    by simp
  from FrameNode_Print_bounds [where env = example_env and b = "SQLNode_init kFrames 0 0"
      and frame_type = kFrameRange and start = None and fin = None and tab = SPACE_ST]
  obtain out where o: "Print example_env (FrameNode (SQLNode_init kFrames 0 0) kFrameRange None None)
      SPACE_ST = Some out"
    by auto
  from FrameNode_Print_bounds [where env = example_env and b = "SQLNode_init kFrames 0 0"
      and frame_type = kFrameRange and start = None and fin = None and tab = SPACE_ST
      and out = out] o
  have "sublist (SPACE_ST @ TAB @ ''start: UNBOUNDED'') out \<and>
        suffix (SPACE_ST @ TAB @ ''end: UNBOUNDED'') out"
    by simp
  with o have b: "\<exists>out. Print example_env (new_FrameNode kFrameRange None None) SPACE_ST = Some out \<and>
        sublist (SPACE_ST @ TAB @ ''start: UNBOUNDED'') out \<and>
        suffix (SPACE_ST @ TAB @ ''end: UNBOUNDED'') out"
    by (auto simp: new_FrameNode_def)
  from p a b show ?thesis by (simp add: frame_example_def new_FrameNode_def)
qed

end
